theory Spec2Isabelle
  imports Main "HOL-Library.Sublist" "HOL-Library.Multiset"
begin

section \<open>JavaScript primitives the template compiler relies on\<close>

text \<open>
  The two exceptions the compiler can raise: the \<^verbatim>\<open>TypeError\<close> of a property read on
  \<^verbatim>\<open>undefined\<close>, and the \<^verbatim>\<open>Error\<close> thrown by a combined node-list executor whose live
  node list has another length than the compiled one.
\<close>

datatype error = TypeError | StructuralMismatch

text \<open>\<^verbatim>\<open>String.prototype.indexOf\<close>: the first position of \<open>p\<close> in the string, \<open>-1\<close> if none.\<close>

fun indexOf :: "string \<Rightarrow> string \<Rightarrow> int" where
  "indexOf [] p = (if p = [] then 0 else - 1)"
| "indexOf (c # cs) p =
     (if prefix p (c # cs) then 0
      else (let i = indexOf cs p in if i < 0 then - 1 else i + 1))"

text \<open>\<^verbatim>\<open>String.prototype.slice(start)\<close>: a negative start counts from the end.\<close>

definition slice_from :: "string \<Rightarrow> int \<Rightarrow> string" where
  "slice_from s i =
     (if i < 0 then drop (nat (max (int (length s) + i) 0)) s else drop (nat i) s)"

text \<open>
  \<^verbatim>\<open>Array.prototype.sort(compare)\<close>, as ECMAScript 2019 specifies it: a stable sort, an
  element \<open>x\<close> staying in front of \<open>y\<close> whenever \<open>compare x y \<le> 0\<close>. The model inserts
  the elements from the last to the first.
\<close>

fun js_insert :: "('a \<Rightarrow> 'a \<Rightarrow> int) \<Rightarrow> 'a \<Rightarrow> 'a list \<Rightarrow> 'a list" where
  "js_insert cmp x [] = [x]"
| "js_insert cmp x (y # ys) =
     (if cmp x y \<le> 0 then x # y # ys else y # js_insert cmp x ys)"

definition js_sort :: "('a \<Rightarrow> 'a \<Rightarrow> int) \<Rightarrow> 'a list \<Rightarrow> 'a list" where
  "js_sort cmp xs = foldr (js_insert cmp) xs []"

text \<open>
  \<^verbatim>\<open>Array.prototype.splice(start, deleteCount)\<close>: a negative start counts from the end,
  both arguments are clamped to the array.
\<close>

definition js_splice :: "int \<Rightarrow> nat \<Rightarrow> 'a list \<Rightarrow> 'a list" where
  "js_splice start deleteCount xs =
     (let len = int (length xs);
          s = nat (if start < 0 then max (len + start) 0 else min start len);
          dc = min deleteCount (length xs - s)
      in take s xs @ drop (s + dc) xs)"


section \<open>Nodes, descriptors and the directive registry\<close>

text \<open>
  A DOM node as the compiler reads it: \<^verbatim>\<open>nodeType\<close> (1 element, 3 text, 11 document
  fragment), \<^verbatim>\<open>tagName\<close>, the attributes in document order, \<^verbatim>\<open>textContent\<close> and
  \<^verbatim>\<open>childNodes\<close>.
\<close>

datatype node =
  Node (nodeType: nat) (tagName: string) (attributes: "(string \<times> string) list")
       (textContent: string) (childNodes: "node list")

definition hasAttributes :: "node \<Rightarrow> bool" where
  "hasAttributes n = (attributes n \<noteq> [])"

definition hasChildNodes :: "node \<Rightarrow> bool" where
  "hasChildNodes n = (childNodes n \<noteq> [])"

text \<open>\<^verbatim>\<open>element.getAttribute(name)\<close>: the value, or \<^verbatim>\<open>null\<close> (here \<open>None\<close>).\<close>

definition getAttribute :: "node \<Rightarrow> string \<Rightarrow> string option" where
  "getAttribute n a = map_of (attributes n) a"

fun removeAttribute :: "string \<Rightarrow> node \<Rightarrow> node" where
  "removeAttribute a (Node ty tag attrs txt cs) =
     Node ty tag (filter (\<lambda>kv. fst kv \<noteq> a) attrs) txt cs"

text \<open>
  A binding descriptor as the compiler writes it (\<^verbatim>\<open>IBindingDefinition\<close> object literals),
  and the descriptor after \<^verbatim>\<open>util.extend(descriptor, definition)\<close>.
\<close>

record descriptor =
  name :: string
  expression :: string
  attrName :: "string option"
  isInterpolate :: bool
  isTerminal :: bool

record resolved = descriptor +
  priority :: int
  retainAttribute :: bool

text \<open>
  A definition of the directive registry. The key \<^verbatim>\<open>isTerminal\<close> is optional: when a
  definition has it, \<^verbatim>\<open>util.extend\<close> overwrites the descriptor's own flag.
\<close>

record binding_definition =
  def_priority :: int
  def_isTerminal :: "bool option"
  def_retainAttribute :: bool

text \<open>\<^verbatim>\<open>util.extend(descriptor, definition)\<close>: every key of the definition is copied.\<close>

definition util_extend :: "descriptor \<Rightarrow> binding_definition \<Rightarrow> resolved" where
  "util_extend d df =
     \<lparr> name = name d, expression = expression d, attrName = attrName d,
       isInterpolate = isInterpolate d,
       isTerminal = (case def_isTerminal df of None \<Rightarrow> isTerminal d | Some b \<Rightarrow> b),
       priority = def_priority df, retainAttribute = def_retainAttribute df \<rparr>"

datatype token = Literal string | Expression string

text \<open>
  What the compiler takes from its collaborators: \<^verbatim>\<open>config.prefix\<close>, \<^verbatim>\<open>config.debug\<close>,
  the registry (\<^verbatim>\<open>Binding.getTerminalBindings\<close>, \<^verbatim>\<open>Binding.getDefinintionByName\<close>) and the
  parser (\<^verbatim>\<open>parser.hasInterpolation\<close>, \<^verbatim>\<open>parser.parseInterpolate\<close>). None of them is part
  of the compiler, so they are parameters.
\<close>

record env =
  config_prefix :: string
  config_debug :: bool
  getTerminalBindings :: "string list"
  getDefinintionByName :: "string \<Rightarrow> binding_definition option"
  hasInterpolation :: "string \<Rightarrow> bool"
  parseInterpolate :: "string \<Rightarrow> token list"

section \<open>Compiled units\<close>

text \<open>
  The closure \<^verbatim>\<open>createExecutor\<close> returns: it holds the extended descriptor and carries
  the two properties \<^verbatim>\<open>isTerminal\<close> and \<^verbatim>\<open>priority\<close>.
\<close>

record bexecutor =
  ex_descriptor :: resolved
  ex_isTerminal :: bool
  ex_priority :: int

text \<open>
  The closures over a single node: the one of \<^verbatim>\<open>createExecutor\<close>, the one of
  \<^verbatim>\<open>processNormalBinding\<close> (its sorted array), the \<^verbatim>\<open>TEXTAREA\<close> wrapper of
  \<^verbatim>\<open>compileElement\<close> (its \<^verbatim>\<open>originExecutor\<close>) and the one of \<^verbatim>\<open>compileTextNode\<close> (its
  fragment's children and its \<^verbatim>\<open>executors\<close>).
\<close>

datatype executor =
    BindingExecutor bexecutor
  | NormalExecutor "bexecutor list"
  | TextareaExecutor "executor option"
  | TextExecutor "node list" "bexecutor option list"

text \<open>
  The closure of \<^verbatim>\<open>compileNodeList\<close>. Its array \<^verbatim>\<open>executors\<close> receives two entries per
  node, \<^verbatim>\<open>executors.push(executor, childExecutor)\<close>; the model keeps each such pair
  together, so the array has twice as many entries as the list has pairs.
\<close>

datatype list_executor =
  NodeListExecutor "(executor option \<times> list_executor option) list"

text \<open>\<^verbatim>\<open>executor && executor.isTerminal\<close>: only the closure of createExecutor has the property.\<close>

fun is_terminal :: "executor option \<Rightarrow> bool" where
  "is_terminal (Some (BindingExecutor b)) = ex_isTerminal b"
| "is_terminal _ = False"

section \<open>The node compiler\<close>

text \<open>
  \<^verbatim>\<open>createExecutor(element, descriptor)\<close>. With no definition, the function returns
  nothing when \<^verbatim>\<open>config.debug\<close> is set (after a console warning); otherwise the next
  statement reads \<^verbatim>\<open>definition.retainAttribute\<close> on \<^verbatim>\<open>undefined\<close>. Only an element has
  \<^verbatim>\<open>removeAttribute\<close>. The element is returned as the call leaves it.
\<close>

definition createExecutor :: "env \<Rightarrow> node \<Rightarrow> descriptor \<Rightarrow> error + (node \<times> bexecutor option)" where
  "createExecutor e element d =
     (case getDefinintionByName e (name d) of
        None \<Rightarrow> if config_debug e then Inr (element, None) else Inl TypeError
      | Some df \<Rightarrow>
          let element' =
                (if \<not> def_retainAttribute df \<and> nodeType element = 1
                 then removeAttribute (config_prefix e @ name d) element else element);
              d' = util_extend d df
          in Inr (element',
                  Some \<lparr> ex_descriptor = d', ex_isTerminal = isTerminal d',
                         ex_priority = def_priority df \<rparr>))"

text \<open>
  \<^verbatim>\<open>processTerminalBinding\<close>: the loop \<^verbatim>\<open>for (i = 0; name = terminals[i]; i++)\<close> ends at the
  end of the array or at an empty name; \<^verbatim>\<open>if (expression = element.getAttribute(...))\<close>
  passes over a missing attribute and over an empty value.
\<close>

fun terminalLoop :: "env \<Rightarrow> node \<Rightarrow> string list \<Rightarrow> error + (node \<times> bexecutor option)" where
  "terminalLoop e element [] = Inr (element, None)"
| "terminalLoop e element (nm # rest) =
     (if nm = [] then Inr (element, None)
      else (case getAttribute element (config_prefix e @ nm) of
              None \<Rightarrow> terminalLoop e element rest
            | Some ex \<Rightarrow>
                if ex \<noteq> []
                then createExecutor e element
                       \<lparr> name = nm, expression = ex, attrName = None,
                         isInterpolate = False, isTerminal = True \<rparr>
                else terminalLoop e element rest))"

definition processTerminalBinding :: "env \<Rightarrow> node \<Rightarrow> error + (node \<times> bexecutor option)" where
  "processTerminalBinding e element = terminalLoop e element (getTerminalBindings e)"

text \<open>
  The body of the \<^verbatim>\<open>forEach\<close> of \<^verbatim>\<open>processNormalBinding\<close> for one attribute of the
  snapshot \<^verbatim>\<open>util.toArray(element.attributes)\<close>: the descriptor it builds, if any.
\<close>

definition attrDescriptor :: "env \<Rightarrow> string \<times> string \<Rightarrow> descriptor option" where
  "attrDescriptor e attr =
     (let nm = fst attr; index = indexOf nm (config_prefix e); ex = snd attr in
      if index > - 1 \<and> index < int (length nm) - 1
      then Some \<lparr> name = slice_from nm (index + int (length (config_prefix e))),
                  expression = ex, attrName = None, isInterpolate = False,
                  isTerminal = False \<rparr>
      else if hasInterpolation e ex
      then Some \<lparr> name = ''attr'', expression = ex, attrName = Some nm,
                  isInterpolate = True, isTerminal = False \<rparr>
      else None)"

text \<open>The \<^verbatim>\<open>forEach\<close> itself: the element as it is left and the array \<^verbatim>\<open>executors\<close>.\<close>

fun scanAttributes ::
  "env \<Rightarrow> (string \<times> string) list \<Rightarrow> node \<Rightarrow> bexecutor list \<Rightarrow> error + (node \<times> bexecutor list)" where
  "scanAttributes e [] element executors = Inr (element, executors)"
| "scanAttributes e (attr # rest) element executors =
     (case attrDescriptor e attr of
        None \<Rightarrow> scanAttributes e rest element executors
      | Some d \<Rightarrow>
          (case createExecutor e element d of
             Inl err \<Rightarrow> Inl err
           | Inr (element', None) \<Rightarrow> scanAttributes e rest element' executors
           | Inr (element', Some ex) \<Rightarrow> scanAttributes e rest element' (executors @ [ex])))"

definition processNormalBinding :: "env \<Rightarrow> node \<Rightarrow> error + (node \<times> executor option)" where
  "processNormalBinding e element =
     (case scanAttributes e (attributes element) element [] of
        Inl err \<Rightarrow> Inl err
      | Inr (element', executors) \<Rightarrow>
          if executors \<noteq> []
          then Inr (element',
                    Some (NormalExecutor
                            (js_sort (\<lambda>a b. ex_priority b - ex_priority a) executors)))
          else Inr (element', None))"

text \<open>
  \<^verbatim>\<open>compileElement\<close>: \<^verbatim>\<open>processTerminalBinding(element) || processNormalBinding(element)\<close>
  for an element with attributes, and the wrapper for a \<^verbatim>\<open>TEXTAREA\<close>, which is a new
  closure without the property \<^verbatim>\<open>isTerminal\<close>.
\<close>

definition compileElement :: "env \<Rightarrow> node \<Rightarrow> error + (node \<times> executor option)" where
  "compileElement e element =
     (case (if hasAttributes element
            then (case processTerminalBinding e element of
                    Inl err \<Rightarrow> Inl err
                  | Inr (element', Some b) \<Rightarrow> Inr (element', Some (BindingExecutor b))
                  | Inr (element', None) \<Rightarrow> processNormalBinding e element')
            else Inr (element, None)) of
        Inl err \<Rightarrow> Inl err
      | Inr (element', executor) \<Rightarrow>
          if tagName element' = ''TEXTAREA''
          then Inr (element', Some (TextareaExecutor executor))
          else Inr (element', executor))"

text \<open>
  \<^verbatim>\<open>compileTextNode\<close>: one fragment child and one entry of \<^verbatim>\<open>executors\<close> per token, a
  literal giving \<^verbatim>\<open>null\<close> and an expression the closure of a \<^verbatim>\<open>bind\<close> descriptor.
\<close>

fun tokenExecutors ::
  "env \<Rightarrow> node \<Rightarrow> token list \<Rightarrow> error + (node list \<times> bexecutor option list)" where
  "tokenExecutors e nd [] = Inr ([], [])"
| "tokenExecutors e nd (Literal s # rest) =
     (case tokenExecutors e nd rest of
        Inl err \<Rightarrow> Inl err
      | Inr (frag, exs) \<Rightarrow> Inr (Node 3 [] [] s [] # frag, None # exs))"
| "tokenExecutors e nd (Expression x # rest) =
     (case createExecutor e nd
             \<lparr> name = ''bind'', expression = x, attrName = None,
               isInterpolate = False, isTerminal = False \<rparr> of
        Inl err \<Rightarrow> Inl err
      | Inr (_, ex) \<Rightarrow>
          (case tokenExecutors e nd rest of
             Inl err \<Rightarrow> Inl err
           | Inr (frag, exs) \<Rightarrow> Inr (Node 3 [] [] '' '' [] # frag, ex # exs)))"

definition compileTextNode :: "env \<Rightarrow> node \<Rightarrow> error + (node \<times> executor option)" where
  "compileTextNode e nd =
     (if \<not> hasInterpolation e (textContent nd) then Inr (nd, None)
      else (case tokenExecutors e nd (parseInterpolate e (textContent nd)) of
              Inl err \<Rightarrow> Inl err
            | Inr (frag, exs) \<Rightarrow> Inr (nd, Some (TextExecutor frag exs))))"

definition compileNode :: "env \<Rightarrow> node \<Rightarrow> error + (node \<times> executor option)" where
  "compileNode e nd =
     (if nodeType nd = 1 \<and> tagName nd \<noteq> ''SCRIPT'' then compileElement e nd
      else if nodeType nd = 3 then compileTextNode e nd
      else Inr (nd, None))"

section \<open>The tree compiler\<close>

fun setChildNodes :: "node list \<Rightarrow> node \<Rightarrow> node" where
  "setChildNodes cs (Node ty tag attrs txt _) = Node ty tag attrs txt cs"

text \<open>
  \<^verbatim>\<open>compileNodeList\<close>. \<open>compileEntry\<close> is the body of its \<^verbatim>\<open>forEach\<close> for one node and
  \<open>compileNodes\<close> the \<^verbatim>\<open>forEach\<close>; the nodes are returned as compilation leaves them
  (\<^verbatim>\<open>createExecutor\<close> removes attributes in place). \<^verbatim>\<open>compileNode\<close> changes no child list,
  so \<^verbatim>\<open>node.childNodes\<close> is the list \<open>cs\<close> of the node matched. The test
  \<^verbatim>\<open>executors.length > 1\<close> holds as soon as the list has one node, the array getting two
  entries per node.
\<close>

fun compileEntry ::
      "env \<Rightarrow> node \<Rightarrow> error + (node \<times> executor option \<times> list_executor option)"
  and compileNodes ::
      "env \<Rightarrow> node list \<Rightarrow> error + (node list \<times> (executor option \<times> list_executor option) list)"
  and compileNodeList ::
      "env \<Rightarrow> node list \<Rightarrow> error + (node list \<times> list_executor option)" where
  "compileEntry e (Node ty tag attrs txt cs) =
     (case compileNode e (Node ty tag attrs txt cs) of
        Inl err \<Rightarrow> Inl err
      | Inr (nd', executor) \<Rightarrow>
          if \<not> is_terminal executor \<and> cs \<noteq> []
          then (case compileNodeList e cs of
                  Inl err \<Rightarrow> Inl err
                | Inr (cs', childExecutor) \<Rightarrow>
                    Inr (setChildNodes cs' nd', executor, childExecutor))
          else Inr (nd', executor, None))"
| "compileNodes e [] = Inr ([], [])"
| "compileNodes e (nd # rest) =
     (case compileEntry e nd of
        Inl err \<Rightarrow> Inl err
      | Inr (nd', executor, childExecutor) \<Rightarrow>
          (case compileNodes e rest of
             Inl err \<Rightarrow> Inl err
           | Inr (rest', executors) \<Rightarrow>
               Inr (nd' # rest', (executor, childExecutor) # executors)))"
| "compileNodeList e nodeList =
     (case compileNodes e nodeList of
        Inl err \<Rightarrow> Inl err
      | Inr (nodeList', executors) \<Rightarrow>
          if 2 * length executors > 1
          then Inr (nodeList', Some (NodeListExecutor executors))
          else Inr (nodeList', None))"

text \<open>
  The argument of \<^verbatim>\<open>Template.compile\<close> is a node or an array of nodes
  (\<^verbatim>\<open>Array.isArray(node)\<close>). The closure it returns captures \<^verbatim>\<open>executor\<close>, which is
  the closure of a node or (for an array) the one of a node list, and \<^verbatim>\<open>childExecutor\<close>.
\<close>

datatype compile_input = SingleNode node | NodeArray "node list"

datatype unit_executor = OnNode executor | OnList list_executor

record compiled =
  c_executor :: "unit_executor option"
  c_childExecutor :: "list_executor option"

definition compile :: "env \<Rightarrow> compile_input \<Rightarrow> error + (compile_input \<times> compiled)" where
  "compile e nd =
     (case nd of
        NodeArray nodes \<Rightarrow>
          (case compileNodeList e nodes of
             Inl err \<Rightarrow> Inl err
           | Inr (nodes', executor) \<Rightarrow>
               Inr (NodeArray nodes',
                    \<lparr> c_executor = map_option OnList executor, c_childExecutor = None \<rparr>))
      | SingleNode n \<Rightarrow>
          (case (if nodeType n = 11 then Inr (n, None) else compileNode e n) of
             Inl err \<Rightarrow> Inl err
           | Inr (n', executor) \<Rightarrow>
               if \<not> is_terminal executor \<and> tagName n' \<noteq> ''SCRIPT'' \<and> hasChildNodes n'
               then (case compileNodeList e (childNodes n') of
                       Inl err \<Rightarrow> Inl err
                     | Inr (cs', childExecutor) \<Rightarrow>
                         Inr (SingleNode (setChildNodes cs' n'),
                              \<lparr> c_executor = map_option OnNode executor,
                                c_childExecutor = childExecutor \<rparr>))
               else Inr (SingleNode n',
                         \<lparr> c_executor = map_option OnNode executor,
                           c_childExecutor = None \<rparr>)))"

section \<open>Execution and the binding ledger\<close>

text \<open>
  A live binding: its identity (a JavaScript object is compared by identity; the model
  numbers the objects as they are created), the descriptor, the live node and the optional
  \<^verbatim>\<open>parentViewModel\<close> and \<^verbatim>\<open>placeholder\<close> it was created with.
\<close>

record binding =
  b_id :: nat
  b_descriptor :: resolved
  b_element :: node
  b_parentViewModel :: "nat option"
  b_placeholder :: "nat option"

text \<open>
  The calls an executor makes on its collaborators besides \<^verbatim>\<open>Binding.create\<close>:
  \<^verbatim>\<open>textarea.value = viewModel.eval(textarea.value, true)\<close> and
  \<^verbatim>\<open>elementUtil.replace(frag, element)\<close>.
\<close>

datatype effect = EvalTextarea node | ReplaceNode node "node list"

text \<open>
  The view model as the compiler sees it: the ledger \<^verbatim>\<open>_bindings\<close>, the number of the next
  binding object, the bindings whose \<^verbatim>\<open>dispose()\<close> was called (in call order) and the
  collaborator calls made so far.
\<close>

record viewModel =
  bindings :: "binding list"
  nextId :: nat
  disposed :: "binding list"
  effects :: "effect list"

text \<open>
  Modelled from the spec: \<^verbatim>\<open>Binding.create\<close> (the class Binding is not among the sources).
  It creates one live binding and appends it to the ledger of the view model.
\<close>

definition Binding_create ::
  "viewModel \<Rightarrow> node \<Rightarrow> resolved \<Rightarrow> nat option \<Rightarrow> nat option \<Rightarrow> viewModel" where
  "Binding_create vm element d parentViewModel placeholder =
     vm \<lparr> bindings := bindings vm @
            [\<lparr> b_id = nextId vm, b_descriptor = d, b_element = element,
               b_parentViewModel = parentViewModel, b_placeholder = placeholder \<rparr>],
          nextId := Suc (nextId vm) \<rparr>"

text \<open>
  Modelled from the spec: \<^verbatim>\<open>binding.dispose()\<close> undoes what the binding installed; it does
  not touch the ledger. The model records the call.
\<close>

definition Binding_dispose :: "binding \<Rightarrow> viewModel \<Rightarrow> viewModel" where
  "Binding_dispose b vm = vm \<lparr> disposed := disposed vm @ [b] \<rparr>"

text \<open>
  The \<^verbatim>\<open>forEach\<close> of the text-node closure over the children of the cloned fragment:
  \<^verbatim>\<open>executors[i](viewModel, node)\<close> where the entry is set, with no owner and no
  placeholder.
\<close>

fun execFragment :: "node list \<Rightarrow> bexecutor option list \<Rightarrow> viewModel \<Rightarrow> viewModel" where
  "execFragment [] executors vm = vm"
| "execFragment (n # ns) [] vm = execFragment ns [] vm"
| "execFragment (n # ns) (None # executors) vm = execFragment ns executors vm"
| "execFragment (n # ns) (Some b # executors) vm =
     execFragment ns executors (Binding_create vm n (ex_descriptor b) None None)"

text \<open>
  Calling the closure of a single node. The \<^verbatim>\<open>TEXTAREA\<close> wrapper calls
  \<^verbatim>\<open>originExecutor(viewModel, textarea)\<close>, dropping owner and placeholder.
\<close>

fun exec :: "executor \<Rightarrow> node \<Rightarrow> nat option \<Rightarrow> nat option \<Rightarrow> viewModel \<Rightarrow> viewModel" where
  "exec (BindingExecutor b) element pvm ph vm =
     Binding_create vm element (ex_descriptor b) pvm ph"
| "exec (NormalExecutor executors) element pvm ph vm =
     fold (\<lambda>b v. Binding_create v element (ex_descriptor b) pvm ph) executors vm"
| "exec (TextareaExecutor originExecutor) textarea pvm ph vm =
     (let vm1 = vm \<lparr> effects := effects vm @ [EvalTextarea textarea] \<rparr> in
      case originExecutor of
        None \<Rightarrow> vm1
      | Some ex \<Rightarrow> exec ex textarea None None vm1)"
| "exec (TextExecutor fragment executors) element pvm ph vm =
     (let vm1 = execFragment fragment executors vm in
      vm1 \<lparr> effects := effects vm1 @ [ReplaceNode element fragment] \<rparr>)"

text \<open>
  Calling the closure of a node list: the length test first, then the \<^verbatim>\<open>forEach\<close> over
  the live nodes, which reads two entries of \<^verbatim>\<open>executors\<close> per node (an entry past the end
  of the array is \<^verbatim>\<open>undefined\<close> and skipped). \<open>exec_entry\<close> is the body of that
  \<^verbatim>\<open>forEach\<close> for one node. An exception leaves the view model as it is at the throw.
\<close>

fun exec_list ::
      "list_executor \<Rightarrow> node list \<Rightarrow> nat option \<Rightarrow> nat option \<Rightarrow> viewModel
         \<Rightarrow> (error \<times> viewModel) + viewModel"
  and exec_pairs ::
      "(executor option \<times> list_executor option) list \<Rightarrow> node list \<Rightarrow> nat option \<Rightarrow> nat option
         \<Rightarrow> viewModel \<Rightarrow> (error \<times> viewModel) + viewModel"
  and exec_entry ::
      "executor option \<times> list_executor option \<Rightarrow> node \<Rightarrow> nat option \<Rightarrow> nat option
         \<Rightarrow> viewModel \<Rightarrow> (error \<times> viewModel) + viewModel" where
  "exec_list (NodeListExecutor executors) nodes pvm ph vm =
     (if length nodes * 2 \<noteq> 2 * length executors
      then Inl (StructuralMismatch, vm)
      else exec_pairs executors nodes pvm ph vm)"
| "exec_pairs executors [] pvm ph vm = Inr vm"
| "exec_pairs [] (n # ns) pvm ph vm = exec_pairs [] ns pvm ph vm"
| "exec_pairs (entry # executors) (n # ns) pvm ph vm =
     (case exec_entry entry n pvm ph vm of
        Inl x \<Rightarrow> Inl x
      | Inr vm' \<Rightarrow> exec_pairs executors ns pvm ph vm')"
| "exec_entry (nodeExecutor, childExecutor) n pvm ph vm =
     (let vm1 = (case nodeExecutor of None \<Rightarrow> vm | Some ex \<Rightarrow> exec ex n pvm ph vm) in
      case childExecutor of
        None \<Rightarrow> Inr vm1
      | Some cex \<Rightarrow> exec_list cex (childNodes n) pvm ph vm1)"

text \<open>
  The closure \<^verbatim>\<open>Template.compile\<close> returns, called on a view model and a live element:
  the view model after the call and \<^verbatim>\<open>bindingList\<close>, the slice of the ledger from its
  length before the call. Every caller passes the kind of element that was compiled (a
  node for a node, an array for an array). A node given to the closure of a node list has no
  \<^verbatim>\<open>length\<close>, so the length test fails; JavaScript gives no meaning worth modelling to an
  array handed to the closure of a node, and the model raises \<^verbatim>\<open>TypeError\<close> there.
\<close>

fun call_unit ::
  "unit_executor \<Rightarrow> compile_input \<Rightarrow> nat option \<Rightarrow> nat option \<Rightarrow> viewModel
     \<Rightarrow> (error \<times> viewModel) + viewModel" where
  "call_unit (OnNode ex) (SingleNode element) pvm ph vm = Inr (exec ex element pvm ph vm)"
| "call_unit (OnList lx) (NodeArray nodes) pvm ph vm = exec_list lx nodes pvm ph vm"
| "call_unit (OnList lx) (SingleNode element) pvm ph vm = Inl (StructuralMismatch, vm)"
| "call_unit (OnNode ex) (NodeArray nodes) pvm ph vm = Inl (TypeError, vm)"

fun call_child ::
  "list_executor \<Rightarrow> compile_input \<Rightarrow> nat option \<Rightarrow> nat option \<Rightarrow> viewModel
     \<Rightarrow> (error \<times> viewModel) + viewModel" where
  "call_child cex (SingleNode element) pvm ph vm = exec_list cex (childNodes element) pvm ph vm"
| "call_child cex (NodeArray nodes) pvm ph vm = Inl (TypeError, vm)"

definition run ::
  "compiled \<Rightarrow> compile_input \<Rightarrow> nat option \<Rightarrow> nat option \<Rightarrow> viewModel
     \<Rightarrow> (error \<times> viewModel) + (viewModel \<times> binding list)" where
  "run c element pvm ph vm =
     (let startIndex = length (bindings vm) in
      case (case c_executor c of
              None \<Rightarrow> Inr vm
            | Some u \<Rightarrow> call_unit u element pvm ph vm) of
        Inl x \<Rightarrow> Inl x
      | Inr vm1 \<Rightarrow>
          (case (case c_childExecutor c of
                   None \<Rightarrow> Inr vm1
                 | Some cex \<Rightarrow> call_child cex element pvm ph vm1) of
             Inl x \<Rightarrow> Inl x
           | Inr vm2 \<Rightarrow> Inr (vm2, drop startIndex (bindings vm2))))"

text \<open>
  \<^verbatim>\<open>allBindings.indexOf(binding)\<close>: the first position holding that very object.
\<close>

fun indexOfBinding :: "binding list \<Rightarrow> binding \<Rightarrow> int" where
  "indexOfBinding [] b = - 1"
| "indexOfBinding (x # xs) b =
     (if b_id x = b_id b then 0
      else (let i = indexOfBinding xs b in if i < 0 then - 1 else i + 1))"

text \<open>
  The disposer the closure returns. \<^verbatim>\<open>bindingList[0]\<close> of an empty list is
  \<^verbatim>\<open>undefined\<close>, which no ledger holds, so \<^verbatim>\<open>indexOf\<close> answers \<open>-1\<close>.
\<close>

definition disposer :: "binding list \<Rightarrow> viewModel \<Rightarrow> viewModel" where
  "disposer bindingList vm =
     (let vm1 = fold Binding_dispose bindingList vm;
          startIndex = (case bindingList of
                          [] \<Rightarrow> - 1
                        | b # _ \<Rightarrow> indexOfBinding (bindings vm1) b)
      in vm1 \<lparr> bindings := js_splice startIndex (length bindingList) (bindings vm1) \<rparr>)"

section \<open>Mounting a component\<close>

text \<open>
  The values \<^verbatim>\<open>util.uuid\<close> handles: the property \<^verbatim>\<open>__DRUNK_UUID__\<close> of an object is
  \<^verbatim>\<open>undefined\<close> or a number, and \<^verbatim>\<open>typeof\<close> answers a string.
\<close>

datatype jsval = JUndefined | JNumber nat | JString string

fun typeof :: "jsval \<Rightarrow> string" where
  "typeof JUndefined = ''undefined''"
| "typeof (JNumber _) = ''number''"
| "typeof (JString _) = ''string''"

text \<open>
  A component is a view model with \<^verbatim>\<open>_isMounted\<close> and \<^verbatim>\<open>element\<close> (a reference to the
  node or node array it is mounted on).
\<close>

record component =
  comp_vm :: viewModel
  comp_isMounted :: bool
  comp_element :: "nat option"

text \<open>The console: a failed \<^verbatim>\<open>console.assert\<close> and the two \<^verbatim>\<open>console.error\<close> calls.\<close>

datatype message = AssertionFailed | MountOnMountedElement nat | MountToOtherComponent nat

text \<open>
  The objects \<^verbatim>\<open>Component.mount\<close> works on, by reference: for every object the value of
  its property \<^verbatim>\<open>__DRUNK_UUID__\<close>, the \<^verbatim>\<open>counter\<close> of module util, the \<^verbatim>\<open>weakRefMap\<close> of
  module Component (a JavaScript object, so the key \<^verbatim>\<open>undefined\<close> is a key like any other),
  the elements, the components and the console.
\<close>

record world =
  uuidProperty :: "nat \<Rightarrow> jsval"
  counter :: nat
  weakRefMap :: "jsval \<Rightarrow> nat option"
  elements :: "nat \<Rightarrow> compile_input"
  components :: "nat \<Rightarrow> component"
  console :: "message list"

text \<open>
  \<^verbatim>\<open>util.uuid(target)\<close>. The test is \<^verbatim>\<open>typeof target[nameOfUid] === undefined\<close>: it compares
  the string \<^verbatim>\<open>typeof\<close> answers with the value \<^verbatim>\<open>undefined\<close>.
\<close>

definition uuid :: "world \<Rightarrow> nat \<Rightarrow> world \<times> jsval" where
  "uuid w target =
     (let w' = (if JString (typeof (uuidProperty w target)) = JUndefined
                then w \<lparr> uuidProperty := (uuidProperty w)(target := JNumber (counter w)),
                         counter := Suc (counter w) \<rparr>
                else w)
      in (w', uuidProperty w' target))"

definition getByElement :: "world \<Rightarrow> nat \<Rightarrow> world \<times> nat option" where
  "getByElement w el = (let (w', uid) = uuid w el in (w', weakRefMap w' uid))"

definition setWeakRef :: "world \<Rightarrow> nat \<Rightarrow> nat \<Rightarrow> world" where
  "setWeakRef w el viewModel =
     (let (w', uid) = uuid w el in
      if weakRefMap w' uid \<noteq> None \<and> weakRefMap w' uid \<noteq> Some viewModel
      then w' \<lparr> console := console w' @ [MountToOtherComponent el] \<rparr>
      else w' \<lparr> weakRefMap := (weakRefMap w')(uid := Some viewModel) \<rparr>)"

definition removeWeakRef :: "world \<Rightarrow> nat \<Rightarrow> world" where
  "removeWeakRef w el =
     (let (w', uid) = uuid w el in
      if weakRefMap w' uid \<noteq> None
      then w' \<lparr> weakRefMap := (weakRefMap w')(uid := None) \<rparr>
      else w')"

text \<open>
  \<^verbatim>\<open>Component.mount(element, ownerViewModel, placeholder)\<close> on the component \<open>this\<close>. A
  failed assertion only writes to the console. An exception of the compiler or of the
  binding program leaves the method at once; the attributes a compilation had removed
  before it threw are not tracked.
\<close>

definition mount ::
  "env \<Rightarrow> world \<Rightarrow> nat \<Rightarrow> nat \<Rightarrow> nat option \<Rightarrow> nat option \<Rightarrow> (error \<times> world) + world" where
  "mount e w this el ownerViewModel placeholder =
     (let w0 = (if comp_isMounted (components w this)
                then w \<lparr> console := console w @ [AssertionFailed] \<rparr> else w);
          (w1, mounted) = getByElement w0 el
      in case mounted of
           Some other \<Rightarrow> Inr (w1 \<lparr> console := console w1 @ [MountOnMountedElement el] \<rparr>)
         | None \<Rightarrow>
             (case compile e (elements w1 el) of
                Inl err \<Rightarrow> Inl (err, w1)
              | Inr (el', c) \<Rightarrow>
                  let w2 = w1 \<lparr> elements := (elements w1)(el := el') \<rparr> in
                  (case run c el' ownerViewModel placeholder (comp_vm (components w2 this)) of
                     Inl (err, vm') \<Rightarrow>
                       Inl (err, w2 \<lparr> components := (components w2)
                                     (this := (components w2 this) \<lparr> comp_vm := vm' \<rparr>) \<rparr>)
                   | Inr (vm', bindingList) \<Rightarrow>
                       let w3 = w2 \<lparr> components := (components w2)
                                      (this := (components w2 this) \<lparr> comp_vm := vm' \<rparr>) \<rparr>;
                           w4 = setWeakRef w3 el this
                       in Inr (w4 \<lparr> components := (components w4)
                                    (this := (components w4 this)
                                       \<lparr> comp_isMounted := True, comp_element := Some el \<rparr>) \<rparr>))))"

section \<open>Promises and the data of a component\<close>

text \<open>
  The promise of module drunk (\<^verbatim>\<open>promise.ts\<close>) as far as the data of a component uses it.
  A value handed to a promise is \<^verbatim>\<open>undefined\<close>, a datum, a Promise object (by reference) or
  an array. A thenable of another library runs code of its own and is not modelled, so
  \<^verbatim>\<open>isThenable\<close> holds of Promise objects only and \<^verbatim>\<open>handleThenable\<close> has its first branch
  only.
\<close>

datatype PromiseState = PENDING | RESOLVED | REJECTED

datatype pvalue = PUndefined | PData nat | PPromise nat | PArray "pvalue list"

text \<open>
  The functions that are passed as callbacks: none (\<^verbatim>\<open>undefined\<close>, \<^verbatim>\<open>null\<close>); the two
  assignments, \<^verbatim>\<open>result => { this[name] = result; }\<close> of \<^verbatim>\<open>Component.__init\<close> and
  \<^verbatim>\<open>result => this[property] = result\<close> of \<^verbatim>\<open>$resolveData\<close>; the warning
  \<^verbatim>\<open>reason => console.warn(...)\<close>; \<^verbatim>\<open>toResolve\<close> and \<^verbatim>\<open>toReject\<close> of \<^verbatim>\<open>handleThenable\<close>; and
  the two callbacks of \<^verbatim>\<open>Promise.all\<close> for the entry \<open>i\<close> of its closure. None of them
  throws, so the \<^verbatim>\<open>catch\<close> of \<^verbatim>\<open>invokeCallback\<close> has no counterpart.
\<close>

datatype callback =
    NoCallback
  | AssignInit string
  | AssignResolve string
  | WarnReason string
  | ToResolve nat
  | ToReject nat
  | AllFulfilled nat nat
  | AllRejected nat

text \<open>
  A promise (\<^verbatim>\<open>_state\<close>, \<^verbatim>\<open>_value\<close>, \<^verbatim>\<open>_listeners\<close>, the listeners kept three by three as
  \<^verbatim>\<open>subscribe\<close> writes them); a function queued by \<^verbatim>\<open>nextTick\<close>, which is the one of
  \<^verbatim>\<open>publish\<close> or the one of \<^verbatim>\<open>then\<close>; the variables one call of \<^verbatim>\<open>Promise.all\<close> closes
  over; what is observed of a run; and the whole state: the promises and closures by
  reference, the timer queue of \<^verbatim>\<open>setTimeout(callback, 0)\<close> (first in, first out), the
  properties of the component that have a proxy, their values, and the observations.
\<close>

record promise =
  p_state :: PromiseState
  p_value :: pvalue
  p_listeners :: "(nat \<times> callback \<times> callback) list"

datatype task =
    PublishTask nat pvalue PromiseState
  | InvokeTask PromiseState nat callback pvalue

record all_closure =
  a_len :: nat
  a_count :: nat
  a_result :: "pvalue list"
  a_rejected :: bool
  a_promise :: nat

datatype event =
    ProxyInstalled string
  | Settled nat PromiseState
  | Assigned string pvalue
  | Warned string

record loop =
  promises :: "nat \<Rightarrow> promise"
  nextPromise :: nat
  closures :: "nat \<Rightarrow> all_closure"
  nextClosure :: nat
  timers :: "task list"
  proxied :: "string list"
  props :: "string \<Rightarrow> pvalue option"
  trace :: "event list"























text \<open>
  Modelled from the spec: \<^verbatim>\<open>ViewModel.proxy\<close> (\<^verbatim>\<open>$proxy\<close>), which is not among the sources.
  It installs the proxy of a property; the model records the property.
\<close>

definition proxy :: "loop \<Rightarrow> string \<Rightarrow> loop" where
  "proxy s nm =
     s \<lparr> proxied := (if nm \<in> set (proxied s) then proxied s else proxied s @ [nm]),
         trace := trace s @ [ProxyInstalled nm] \<rparr>"








section \<open>Notions used to state the properties\<close>

text \<open>
  The closures of \<^verbatim>\<open>createExecutor\<close> inside the unit of one node: the resolved descriptors
  that node contributes.
\<close>

fun units :: "executor option \<Rightarrow> bexecutor list" where
  "units None = []"
| "units (Some (BindingExecutor b)) = [b]"
| "units (Some (NormalExecutor bs)) = bs"
| "units (Some (TextareaExecutor originExecutor)) = units originExecutor"
| "units (Some (TextExecutor fragment executors)) = List.map_filter id executors"

text \<open>
  The attribute names compilation strips for a list of such closures: prefix and
  descriptor name, for every descriptor whose definition does not set
  \<^verbatim>\<open>retainAttribute\<close>.
\<close>

definition strippedNames :: "env \<Rightarrow> bexecutor list \<Rightarrow> string list" where
  "strippedNames e bs =
     map (\<lambda>b. config_prefix e @ name (ex_descriptor b))
       (filter (\<lambda>b. \<not> retainAttribute (ex_descriptor b)) bs)"

text \<open>
  A static subtree: no attribute name of an element holds the prefix, no attribute value
  and no text holds interpolation syntax.
\<close>

fun static_node :: "env \<Rightarrow> node \<Rightarrow> bool" where
  "static_node e (Node ty tag attrs txt cs) =
     ((ty = 1 \<longrightarrow> (\<forall>kv \<in> set attrs. indexOf (fst kv) (config_prefix e) = - 1
                                      \<and> \<not> hasInterpolation e (snd kv)))
      \<and> (ty = 3 \<longrightarrow> \<not> hasInterpolation e txt)
      \<and> (\<forall>c \<in> set cs. static_node e c))"


text \<open>Two states of a node that differ in their attributes at most.\<close>

definition same_frame :: "node \<Rightarrow> node \<Rightarrow> bool" where
  "same_frame a b = (nodeType b = nodeType a \<and> tagName b = tagName a
      \<and> textContent b = textContent a \<and> childNodes b = childNodes a)"

text \<open>
  Compilation took the element from \<open>el\<close> to \<open>el'\<close> by removing the attributes that the
  closures \<open>bs\<close> strip, each of them resolved against the registry.
\<close>

definition strips :: "env \<Rightarrow> node \<Rightarrow> node \<Rightarrow> bexecutor list \<Rightarrow> bool" where
  "strips e el el' bs =
     (same_frame el el'
      \<and> attributes el' = filter (\<lambda>kv. fst kv \<notin> set (strippedNames e bs)) (attributes el)
      \<and> (\<forall>b \<in> set bs. \<exists>df. getDefinintionByName e (name (ex_descriptor b)) = Some df
                            \<and> retainAttribute (ex_descriptor b) = def_retainAttribute df))"

text \<open>
  A call that raises nothing and creates no binding; the attributes of an element that
  hold neither the prefix in a name nor interpolation syntax in a value.
\<close>

definition installs_nothing :: "(viewModel \<Rightarrow> (error \<times> viewModel) + viewModel) \<Rightarrow> bool" where
  "installs_nothing f =
     (\<forall>vm. \<exists>vm'. f vm = Inr vm' \<and> bindings vm' = bindings vm \<and> nextId vm' = nextId vm)"

definition static_attrs :: "env \<Rightarrow> (string \<times> string) list \<Rightarrow> bool" where
  "static_attrs e attrs =
     (\<forall>kv \<in> set attrs. indexOf (fst kv) (config_prefix e) = - 1 \<and> \<not> hasInterpolation e (snd kv))"









text \<open>
  Notions for following one data future through a run. A task that publishes the promise
  \<open>P\<close>; a callback that assigns the property \<open>nm\<close>; the promise \<^verbatim>\<open>Promise.resolve\<close> returns
  for the \<open>i\<close>-th property of the data descriptors (data resolution creates two promises per
  property); the number of timers a schedule fires; a timer queue that holds no publication
  of a promise yet to be created.
\<close>

fun is_publish :: "nat \<Rightarrow> task \<Rightarrow> bool" where
  "is_publish P (PublishTask p v st) = (p = P)"
| "is_publish P (InvokeTask st p cb v) = False"

fun assigns :: "string \<Rightarrow> callback \<Rightarrow> bool" where
  "assigns nm (AssignInit n) = (n = nm)"
| "assigns nm (AssignResolve n) = (n = nm)"
| "assigns nm _ = False"




text \<open>
  A step that leaves the promise \<open>P\<close> as it is, or settles it by publishing it: it only
  appends to the timer queue, removes no listener of \<open>P\<close>, and queues a publication of \<open>P\<close>
  exactly when it settles \<open>P\<close>, with the state and value it gives it.
\<close>

definition keeps :: "nat \<Rightarrow> loop \<Rightarrow> loop \<Rightarrow> bool" where
  "keeps P s s' =
     (P < nextPromise s \<longrightarrow>
        nextPromise s \<le> nextPromise s'
        \<and> set (p_listeners (promises s P)) \<subseteq> set (p_listeners (promises s' P))
        \<and> (\<exists>new. timers s' = timers s @ new
              \<and> (if p_state (promises s' P) = p_state (promises s P)
                  then p_value (promises s' P) = p_value (promises s P)
                       \<and> (\<forall>t \<in> set new. \<not> is_publish P t)
                  else p_state (promises s P) = PENDING
                       \<and> PublishTask P (p_value (promises s' P)) (p_state (promises s' P)) \<in> set new
                       \<and> (\<forall>t \<in> set new. is_publish P t \<longrightarrow>
                              t = PublishTask P (p_value (promises s' P))
                                    (p_state (promises s' P))))))"

text \<open>
  The assignment of a property is registered on the promise \<open>P\<close>: while \<open>P\<close> is pending it
  has a listener that assigns the property and its publication is not queued; once \<open>P\<close> is
  resolved, the assignment of its value has been made or is due when the task at some
  position of the timer queue runs, which is the task \<^verbatim>\<open>then\<close> queued for the callback or the
  publication of \<open>P\<close> with the listener still in place. A promise that is settled at once
  when its value is no future.
\<close>

definition has_listener :: "nat \<Rightarrow> string \<Rightarrow> loop \<Rightarrow> bool" where
  "has_listener P nm s = (\<exists>l \<in> set (p_listeners (promises s P)). assigns nm (fst (snd l)))"

fun assign_task :: "string \<Rightarrow> pvalue \<Rightarrow> task \<Rightarrow> bool" where
  "assign_task nm v (InvokeTask st p cb w) = (st = RESOLVED \<and> assigns nm cb \<and> w = v)"
| "assign_task nm v (PublishTask p w st) = False"

definition queued :: "nat \<Rightarrow> string \<Rightarrow> pvalue \<Rightarrow> nat \<Rightarrow> loop \<Rightarrow> bool" where
  "queued P nm v k s =
     (k < length (timers s)
      \<and> (assign_task nm v (timers s ! k)
         \<or> (timers s ! k = PublishTask P v RESOLVED \<and> has_listener P nm s
            \<and> (\<forall>j < k. \<not> is_publish P (timers s ! j)))))"

definition registered :: "nat \<Rightarrow> string \<Rightarrow> loop \<Rightarrow> bool" where
  "registered P nm s =
     (P < nextPromise s
      \<and> (p_state (promises s P) = PENDING \<longrightarrow>
           has_listener P nm s \<and> (\<forall>t \<in> set (timers s). \<not> is_publish P t))
      \<and> (p_state (promises s P) = RESOLVED \<longrightarrow>
           Assigned nm (p_value (promises s P)) \<in> set (trace s)
           \<or> (\<exists>k. queued P nm (p_value (promises s P)) k s)))"




text \<open>
  A history of calls on one view model: executions of compiled programs, one after the
  other, and invocations of the disposers they returned, the disposer of the \<open>k\<close>-th
  successful execution being known by its number. A session holds the view model, the
  \<^verbatim>\<open>bindingList\<close> each returned disposer closes over and the numbers of the disposers invoked
  so far. An execution that raises leaves the view model as it is at the throw and returns
  no disposer.
\<close>

datatype action = Execute compiled compile_input "nat option" "nat option" | Dispose nat

record session =
  s_vm :: viewModel
  s_disposers :: "binding list list"
  s_invoked :: "nat list"


fun act :: "action \<Rightarrow> session \<Rightarrow> session" where
  "act (Execute c element pvm ph) s =
     (case run c element pvm ph (s_vm s) of
        Inl (err, vm') \<Rightarrow> s \<lparr> s_vm := vm' \<rparr>
      | Inr (vm', bindingList) \<Rightarrow>
          s \<lparr> s_vm := vm', s_disposers := s_disposers s @ [bindingList] \<rparr>)"
| "act (Dispose k) s =
     (if k < length (s_disposers s)
      then s \<lparr> s_vm := disposer (s_disposers s ! k) (s_vm s), s_invoked := s_invoked s @ [k] \<rparr>
      else s)"







section \<open>A small registry and view model to run the compiler on\<close>

definition demo_definitions :: "string \<Rightarrow> binding_definition option" where
  "demo_definitions n =
     (if n = ''if''
      then Some \<lparr> def_priority = 100, def_isTerminal = Some True, def_retainAttribute = False \<rparr>
      else if n = ''class''
      then Some \<lparr> def_priority = 10, def_isTerminal = None, def_retainAttribute = False \<rparr>
      else if n = ''on''
      then Some \<lparr> def_priority = 0, def_isTerminal = None, def_retainAttribute = True \<rparr>
      else if n = ''bind'' \<or> n = ''attr''
      then Some \<lparr> def_priority = 0, def_isTerminal = None, def_retainAttribute = False \<rparr>
      else None)"

definition demo_env :: env where
  "demo_env =
     \<lparr> config_prefix = ''d-'', config_debug = False, getTerminalBindings = [''if''],
       getDefinintionByName = demo_definitions,
       hasInterpolation = (\<lambda>s. indexOf s ''{{'' > - 1),
       parseInterpolate = (\<lambda>s. if s = ''Hi {{n}}!''
                                then [Literal ''Hi '', Expression ''n'', Literal ''!'']
                                else [Literal s]) \<rparr>"

definition demo_vm :: viewModel where
  "demo_vm = \<lparr> bindings = [], nextId = 0, disposed = [], effects = [] \<rparr>"

definition demo_world :: world where
  "demo_world =
     \<lparr> uuidProperty = (\<lambda>_. JUndefined), counter = 0, weakRefMap = (\<lambda>_. None),
       elements = (\<lambda>a. SingleNode (Node 1 ''P'' [(''d-bind'', ''x'')] [] [])),
       components = (\<lambda>_. \<lparr> comp_vm = demo_vm, comp_isMounted = False, comp_element = None \<rparr>),
       console = [] \<rparr>"

definition demo_resolved :: "string \<Rightarrow> string \<Rightarrow> int \<Rightarrow> bool \<Rightarrow> resolved" where
  "demo_resolved n x p r =
     \<lparr> name = n, expression = x, attrName = None, isInterpolate = False, isTerminal = False,
       priority = p, retainAttribute = r \<rparr>"

definition demo_bexecutor :: "string \<Rightarrow> string \<Rightarrow> int \<Rightarrow> bool \<Rightarrow> bexecutor" where
  "demo_bexecutor n x p r =
     \<lparr> ex_descriptor = demo_resolved n x p r, ex_isTerminal = False, ex_priority = p \<rparr>"

definition demo_binding :: "nat \<Rightarrow> string \<Rightarrow> string \<Rightarrow> int \<Rightarrow> bool \<Rightarrow> node \<Rightarrow> binding" where
  "demo_binding i n x p r el =
     \<lparr> b_id = i, b_descriptor = demo_resolved n x p r, b_element = el,
       b_parentViewModel = None, b_placeholder = None \<rparr>"

definition demo_nodeA :: node where
  "demo_nodeA = Node 1 ''DIV'' [(''d-bind'', ''b''), (''d-class'', ''a'')] [] []"

definition demo_nodeB :: node where
  "demo_nodeB = Node 1 ''P'' [(''d-on'', ''c'')] [] []"

definition demo_el :: node where
  "demo_el = Node 1 ''DIV'' [] [] []"

definition demo_unit :: compiled where
  "demo_unit =
     \<lparr> c_executor = Some (OnNode (NormalExecutor
          [demo_bexecutor ''class'' ''a'' 10 False, demo_bexecutor ''bind'' ''b'' 0 False])),
       c_childExecutor = None \<rparr>"


definition demo_nodeC :: node where
  "demo_nodeC =
     Node 1 ''DIV'' [(''d-on'', ''c''), (''d-class'', ''a''), (''d-bind'', ''b'')] [] []"

definition demo_nodeD :: node where
  "demo_nodeD =
     Node 1 ''DIV'' [(''d-if'', []), (''d-bind'', ''x'')] []
       [Node 1 ''P'' [(''d-bind'', ''y'')] [] [],
        Node 1 ''UL'' [] [] [Node 1 ''LI'' [(''d-class'', ''k'')] [] []]]"

definition demo_if_executor :: "string \<Rightarrow> bexecutor" where
  "demo_if_executor x =
     \<lparr> ex_descriptor =
         \<lparr> name = ''if'', expression = x, attrName = None, isInterpolate = False,
           isTerminal = True, priority = 100, retainAttribute = False \<rparr>,
       ex_isTerminal = True, ex_priority = 100 \<rparr>"

definition demo_nodeE :: node where
  "demo_nodeE =
     Node 1 ''DIV'' [(''d-bind'', ''x''), (''d-if'', ''ok'')] []
       [Node 1 ''P'' [(''d-bind'', ''y'')] [] []]"

definition demo_nodeF :: node where
  "demo_nodeF =
     Node 1 ''DIV'' [(''d-if'', []), (''d-class'', ''k'')] []
       [Node 1 ''P'' [(''d-on'', ''y'')] [] []]"

definition demo_nodeG :: node where
  "demo_nodeG = Node 1 ''DIV'' [(''title'', ''{{t}}''), (''d-bind'', ''x'')] [] []"

definition demo_attr_executor :: bexecutor where
  "demo_attr_executor =
     \<lparr> ex_descriptor =
         \<lparr> name = ''attr'', expression = ''{{t}}'', attrName = Some ''title'',
           isInterpolate = True, isTerminal = False, priority = 0, retainAttribute = False \<rparr>,
       ex_isTerminal = False, ex_priority = 0 \<rparr>"

definition demo_nodeH :: node where
  "demo_nodeH = Node 1 ''DIV'' [(''id'', ''a'')] [] [Node 3 [] [] ''hello'' []]"




definition demo_unitB :: compiled where
  "demo_unitB =
     \<lparr> c_executor = Some (OnNode (NormalExecutor [demo_bexecutor ''on'' ''c'' 0 True])),
       c_childExecutor = None \<rparr>"



definition demo_script :: node where
  "demo_script =
     Node 1 ''SCRIPT'' [(''d-if'', []), (''d-bind'', ''x'')] [] [Node 3 [] [] ''Hi {{n}}!'' []]"

section \<open>Evaluating the model\<close>

lemmas mount_defs = mount_def getByElement_def setWeakRef_def uuid_def demo_world_def

lemmas model_defs = compile_def compileNode_def compileElement_def processTerminalBinding_def
  processNormalBinding_def attrDescriptor_def createExecutor_def util_extend_def
  getAttribute_def hasAttributes_def hasChildNodes_def slice_from_def js_sort_def
  compileTextNode_def run_def Binding_create_def Binding_dispose_def disposer_def js_splice_def
  Let_def

lemmas demo_defs = demo_env_def demo_definitions_def demo_vm_def demo_resolved_def
  demo_bexecutor_def demo_binding_def demo_el_def demo_nodeB_def demo_nodeC_def
  demo_if_executor_def


lemma demo_compile_nodeA:
  "compile demo_env (SingleNode demo_nodeA) = Inr (SingleNode demo_el, demo_unit)"
  by (simp add: model_defs demo_defs demo_nodeA_def demo_unit_def)

lemma demo_compile_nodeB:
  "compile demo_env (SingleNode demo_nodeB) = Inr (SingleNode demo_nodeB, demo_unitB)"
  by (simp add: model_defs demo_defs demo_unitB_def)

section \<open>Executors only append to the ledger\<close>













section \<open>The disposer\<close>

























lemma invoked_dispose:
  "distinct (s_invoked (act (Dispose k) s)) \<Longrightarrow> k < length (s_disposers s) \<Longrightarrow> k \<notin> set (s_invoked s)"
  by simp







section \<open>The length test of a node-list executor\<close>





section \<open>The order of the bindings of one element\<close>

lemma js_insert_insort_key:
  fixes f :: "'a \<Rightarrow> int"
  shows "js_insert (\<lambda>a b. f b - f a) x xs = insort_key (\<lambda>y. - f y) x xs"
  by (induction xs) simp_all

lemma js_sort_sort_key:
  fixes f :: "'a \<Rightarrow> int"
  shows "js_sort (\<lambda>a b. f b - f a) xs = sort_key (\<lambda>y. - f y) xs"
  by (induction xs) (simp_all add: js_sort_def sort_key_def js_insert_insort_key)

lemma sorted_wrt_descending:
  fixes f :: "'a \<Rightarrow> int"
  shows "sorted_wrt (\<lambda>a b. f b \<le> f a) (sort_key (\<lambda>y. - f y) xs)"
proof -
  have "sorted (map (\<lambda>y. - f y) (sort_key (\<lambda>y. - f y) xs))" by (rule sorted_sort_key)
  then show ?thesis by (simp add: sorted_map)
qed

lemma fold_create_descriptors:
  "map b_descriptor (bindings (fold (\<lambda>b v. Binding_create v el (ex_descriptor b) p h) bs vm))
     = map b_descriptor (bindings vm) @ map ex_descriptor bs"
  by (induction bs arbitrary: vm) (simp_all add: Binding_create_def)

lemma createExecutor_priority:
  "createExecutor e el d = Inr (el', Some b) \<Longrightarrow> ex_priority b = priority (ex_descriptor b)"
  by (auto simp: createExecutor_def util_extend_def Let_def split: option.splits if_splits)

lemma scanAttributes_priority:
  "scanAttributes e attrs el acc = Inr (el', exs) \<Longrightarrow>
   \<forall>b \<in> set acc. ex_priority b = priority (ex_descriptor b) \<Longrightarrow>
   \<forall>b \<in> set exs. ex_priority b = priority (ex_descriptor b)"
proof (induction e attrs el acc rule: scanAttributes.induct)
  case (1 e element executors)
  then show ?case by simp
next
  case (2 e attr rest element executors)
  show ?case
  proof (cases "attrDescriptor e attr")
    case None
    then show ?thesis using 2 by simp
  next
    case (Some d)
    note ad = Some
    show ?thesis
    proof (cases "createExecutor e element d")
      case (Inl err)
      then show ?thesis using 2(4) ad by simp
    next
      case (Inr r)
      obtain element' ex where r: "r = (element', ex)" by (cases r)
      show ?thesis
      proof (cases ex)
        case None
        then show ?thesis using 2(2) [OF ad Inr r [symmetric] None] 2(4,5) ad Inr r by simp
      next
        case (Some b)
        have "ex_priority b = priority (ex_descriptor b)"
          using createExecutor_priority Inr r Some by blast
        then show ?thesis
          using 2(3) [OF ad Inr r [symmetric] Some] 2(4,5) ad Inr r Some by simp
      qed
    qed
  qed
qed

text \<open>
  Claim C4. When the attribute scan of an element resolves at least one descriptor (in
  particular two or more), \<^verbatim>\<open>processNormalBinding\<close> returns the executors sorted by
  descending priority with a stable sort (\<open>sort_key\<close> on the negated priority), and running
  the unit creates the bindings in that order: priorities never increase along the order,
  the executors of one priority keep their attribute scan order, and the order is a
  permutation of the scan. \<^verbatim>\<open>Array.prototype.sort\<close> is taken as ECMAScript 2019 specifies
  it (stable), priorities as integers.
\<close>

theorem normal_bindings_run_by_descending_priority:
  assumes "scanAttributes e (attributes el) el [] = Inr (el', scanned)"
      and "scanned \<noteq> []"
  shows "let ordered = sort_key (\<lambda>x. - ex_priority x) scanned in
         processNormalBinding e el = Inr (el', Some (NormalExecutor ordered))
       \<and> map b_descriptor (bindings (exec (NormalExecutor ordered) live pvm ph vm))
           = map b_descriptor (bindings vm) @ map ex_descriptor ordered
       \<and> sorted_wrt (\<lambda>a b. priority (ex_descriptor b) \<le> priority (ex_descriptor a)) ordered
       \<and> (\<forall>p. filter (\<lambda>x. priority (ex_descriptor x) = p) ordered
              = filter (\<lambda>x. priority (ex_descriptor x) = p) scanned)
       \<and> mset ordered = mset scanned"
proof -
  define ordered where "ordered = sort_key (\<lambda>x. - ex_priority x) scanned"
  have pr: "\<forall>b \<in> set scanned. ex_priority b = priority (ex_descriptor b)"
    using scanAttributes_priority [OF assms(1)] by simp
  have m: "mset ordered = mset scanned" by (simp add: ordered_def)
  then have so: "set ordered = set scanned" by (metis set_mset_mset)
  have 1: "processNormalBinding e el = Inr (el', Some (NormalExecutor ordered))"
    using assms by (simp add: processNormalBinding_def ordered_def js_sort_sort_key)
  have 2: "map b_descriptor (bindings (exec (NormalExecutor ordered) live pvm ph vm))
           = map b_descriptor (bindings vm) @ map ex_descriptor ordered"
    by (simp add: fold_create_descriptors)
  have "sorted_wrt (\<lambda>a b. ex_priority b \<le> ex_priority a) ordered"
    unfolding ordered_def by (rule sorted_wrt_descending)
  then have 3: "sorted_wrt (\<lambda>a b. priority (ex_descriptor b) \<le> priority (ex_descriptor a)) ordered"
    using pr so by (auto elim!: sorted_wrt_mono_rel [rotated])
  have 4: "filter (\<lambda>x. priority (ex_descriptor x) = p) ordered
              = filter (\<lambda>x. priority (ex_descriptor x) = p) scanned" for p
  proof -
    have "filter (\<lambda>x. - ex_priority x = - p) ordered = filter (\<lambda>x. - ex_priority x = - p) scanned"
      unfolding ordered_def by (rule sort_key_stable)
    moreover have "filter (\<lambda>x. priority (ex_descriptor x) = p) ordered = filter (\<lambda>x. - ex_priority x = - p) ordered"
      using pr so by (intro filter_cong) auto
    moreover have "filter (\<lambda>x. priority (ex_descriptor x) = p) scanned = filter (\<lambda>x. - ex_priority x = - p) scanned"
      using pr by (intro filter_cong) auto
    ultimately show ?thesis by simp
  qed
  show ?thesis
    unfolding Let_def ordered_def [symmetric] using 1 2 3 4 m by blast
qed

theorem normal_bindings_run_by_descending_priority_witness:
  "processNormalBinding demo_env demo_nodeC
     = Inr (Node 1 ''DIV'' [(''d-on'', ''c'')] [] [],
            Some (NormalExecutor [demo_bexecutor ''class'' ''a'' 10 False,
                                  demo_bexecutor ''on'' ''c'' 0 True,
                                  demo_bexecutor ''bind'' ''b'' 0 False]))
   \<and> map b_descriptor (bindings (exec (NormalExecutor [demo_bexecutor ''class'' ''a'' 10 False,
                                  demo_bexecutor ''on'' ''c'' 0 True,
                                  demo_bexecutor ''bind'' ''b'' 0 False]) demo_el None None demo_vm))
     = [demo_resolved ''class'' ''a'' 10 False, demo_resolved ''on'' ''c'' 0 True,
        demo_resolved ''bind'' ''b'' 0 False]"
proof -
  have r: "scanAttributes demo_env (attributes demo_nodeC) demo_nodeC []
     = Inr (Node 1 ''DIV'' [(''d-on'', ''c'')] [] [],
            [demo_bexecutor ''on'' ''c'' 0 True, demo_bexecutor ''class'' ''a'' 10 False,
             demo_bexecutor ''bind'' ''b'' 0 False])"
    by (simp add: model_defs demo_defs)
  have n: "[demo_bexecutor ''on'' ''c'' 0 True, demo_bexecutor ''class'' ''a'' 10 False,
             demo_bexecutor ''bind'' ''b'' 0 False] \<noteq> []" by simp
  show ?thesis
    using normal_bindings_run_by_descending_priority [OF r n, of demo_el None None demo_vm]
    by (simp add: Let_def demo_bexecutor_def demo_vm_def)
qed

section \<open>A descriptor without a definition\<close>

text \<open>
  Claim C5, evaluated where the code departs from it. The registry has no definition named
  \<open>foo\<close>. With \<^verbatim>\<open>config.debug\<close> unset, compiling an element that carries \<open>d-foo\<close> raises
  \<^verbatim>\<open>TypeError\<close>; with \<^verbatim>\<open>config.debug\<close> set, the same element compiles, the match is
  discarded and the other attribute is bound.
\<close>

theorem createExecutor_without_definition_raises:
  "getDefinintionByName demo_env ''foo'' = None
   \<and> compile demo_env (SingleNode (Node 1 ''DIV'' [(''d-foo'', ''x''), (''d-bind'', ''y'')] [] []))
       = Inl TypeError
   \<and> compile (demo_env \<lparr> config_debug := True \<rparr>)
         (SingleNode (Node 1 ''DIV'' [(''d-foo'', ''x''), (''d-bind'', ''y'')] [] []))
       = Inr (SingleNode (Node 1 ''DIV'' [(''d-foo'', ''x'')] [] []),
              \<lparr> c_executor = Some (OnNode (NormalExecutor [demo_bexecutor ''bind'' ''y'' 0 False])),
                c_childExecutor = None \<rparr>)"
  by (simp add: model_defs demo_defs)

section \<open>Mounting twice\<close>

text \<open>
  Claim C6, evaluated where the code departs from it. Component 1 is mounted on element
  10. Element 20 is another object, no component is mounted on it and its property
  \<^verbatim>\<open>__DRUNK_UUID__\<close> is still undefined; mounting component 2 on it is refused all the same:
  the component gets no binding, stays unmounted and the console reports a mount on a
  mounted element.
\<close>

theorem mount_on_fresh_node_aborts_after_first_mount:
  "(case mount demo_env demo_world 1 10 None None of
      Inl _ \<Rightarrow> False
    | Inr w1 \<Rightarrow>
        comp_isMounted (components w1 1) \<and> comp_element (components w1 1) = Some 10
        \<and> comp_element (components w1 2) = None
        \<and> uuidProperty w1 20 = JUndefined
        \<and> (case mount demo_env w1 2 20 None None of
              Inl _ \<Rightarrow> False
            | Inr w2 \<Rightarrow>
                bindings (comp_vm (components w2 2)) = []
                \<and> \<not> comp_isMounted (components w2 2)
                \<and> comp_element (components w2 2) = None
                \<and> console w2 = [MountOnMountedElement 20]))"
  by (simp add: mount_defs model_defs demo_defs)

section \<open>Terminal detection and empty attribute values\<close>

lemma same_frame_refl: "same_frame a a"
  by (simp add: same_frame_def)

lemma same_frame_trans: "same_frame a b \<Longrightarrow> same_frame b c \<Longrightarrow> same_frame a c"
  by (simp add: same_frame_def)

lemma same_frame_removeAttribute: "same_frame el (removeAttribute a el)"
  by (cases el) (simp add: same_frame_def)

lemma createExecutor_frame:
  "createExecutor e el d = Inr (el', b) \<Longrightarrow> same_frame el el'"
  by (auto simp: createExecutor_def Let_def same_frame_refl same_frame_removeAttribute
           split: option.splits if_splits)

lemma terminalLoop_frame:
  "terminalLoop e el ts = Inr (el', b) \<Longrightarrow> same_frame el el'"
proof (induction e el ts rule: terminalLoop.induct)
  case (1 e element)
  then show ?case by (simp add: same_frame_refl)
next
  case (2 e element nm rest)
  then show ?case
    by (auto simp: same_frame_refl split: if_splits option.splits dest: createExecutor_frame)
qed

lemma scanAttributes_frame:
  "scanAttributes e attrs el acc = Inr (el', exs) \<Longrightarrow> same_frame el el'"
proof (induction e attrs el acc rule: scanAttributes.induct)
  case (1 e element executors)
  then show ?case by (simp add: same_frame_refl)
next
  case (2 e attr rest element executors)
  show ?case
  proof (cases "attrDescriptor e attr")
    case None
    then show ?thesis using 2 by simp
  next
    case (Some d)
    note ad = Some
    show ?thesis
    proof (cases "createExecutor e element d")
      case (Inl err)
      then show ?thesis using 2(4) ad by simp
    next
      case (Inr r)
      obtain element' ex where r: "r = (element', ex)" by (cases r)
      have f: "same_frame element element'" using Inr r createExecutor_frame by blast
      show ?thesis
      proof (cases ex)
        case None
        then show ?thesis
          using 2(2) [OF ad Inr r [symmetric] None] 2(4) ad Inr r f same_frame_trans by auto
      next
        case (Some b)
        then show ?thesis
          using 2(3) [OF ad Inr r [symmetric] Some] 2(4) ad Inr r f same_frame_trans by auto
      qed
    qed
  qed
qed

lemma processNormalBinding_frame:
  "processNormalBinding e el = Inr (el', ex) \<Longrightarrow> same_frame el el'"
  by (auto simp: processNormalBinding_def split: sum.splits if_splits prod.splits
           dest: scanAttributes_frame)

lemma processNormalBinding_not_terminal:
  "processNormalBinding e el = Inr (el', ex) \<Longrightarrow> \<not> is_terminal ex"
  by (auto simp: processNormalBinding_def split: sum.splits if_splits prod.splits)

lemma terminalLoop_no_match:
  "\<forall>t \<in> set ts. getAttribute el (config_prefix e @ t) = None
                 \<or> getAttribute el (config_prefix e @ t) = Some [] \<Longrightarrow>
   terminalLoop e el ts = Inr (el, None)"
  by (induction ts) auto

lemma getAttribute_hasAttributes: "getAttribute el a = Some v \<Longrightarrow> hasAttributes el"
  by (auto simp: getAttribute_def hasAttributes_def)

lemma compileNodes_length:
  "compileNodes e ns = Inr (ns', ps) \<Longrightarrow> length ps = length ns \<and> length ns' = length ns"
proof (induction ns arbitrary: ns' ps)
  case Nil
  then show ?case by simp
next
  case (Cons n ns)
  then show ?case by (auto split: sum.splits prod.splits)
qed

lemma createExecutor_name:
  "createExecutor e el d = Inr (el', Some b) \<Longrightarrow> name (ex_descriptor b) = name d"
  by (auto simp: createExecutor_def Let_def util_extend_def split: option.splits if_splits)

lemma terminalLoop_match:
  "terminalLoop e el ts = Inr (el', Some b) \<Longrightarrow>
   \<exists>v. getAttribute el (config_prefix e @ name (ex_descriptor b)) = Some v \<and> v \<noteq> []"
proof (induction e el ts rule: terminalLoop.induct)
  case (1 e element)
  then show ?case by simp
next
  case (2 e element nm rest)
  then show ?case
    by (auto split: if_splits option.splits dest: createExecutor_name)
qed

lemma compileNodes_nth:
  "compileNodes e ns = Inr (ns', ps) \<Longrightarrow> i < length ns \<Longrightarrow>
   compileEntry e (ns ! i) = Inr (ns' ! i, ps ! i)"
proof (induction ns arbitrary: ns' ps i)
  case Nil
  then show ?case by simp
next
  case (Cons n ns)
  obtain n' ex cex rest' ps' where 1: "compileEntry e n = Inr (n', ex, cex)"
    and 2: "compileNodes e ns = Inr (rest', ps')"
    and 3: "ns' = n' # rest'" "ps = (ex, cex) # ps'"
    using Cons.prems(1) by (auto split: sum.splits prod.splits)
  show ?case
  proof (cases i)
    case 0
    then show ?thesis using 1 3 by simp
  next
    case (Suc j)
    then have "j < length ns" using Cons.prems(2) by simp
    then show ?thesis using Cons.IH [OF 2] 3 Suc by simp
  qed
qed

lemma compileEntry_unit:
  "compileEntry e n = Inr (n', ex, cex) \<Longrightarrow> \<exists>n''. compileNode e n = Inr (n'', ex)"
  by (cases n) (auto simp del: compileNodeList.simps split: sum.splits prod.splits if_splits)

lemma compileNodeList_children:
  assumes "compileNodeList e ns = Inr (ns', cex)" and "ns \<noteq> []"
  shows "\<exists>pairs. cex = Some (NodeListExecutor pairs)
           \<and> length pairs = length ns \<and> length ns' = length ns
           \<and> (\<forall>i < length ns.
                 compileEntry e (ns ! i) = Inr (ns' ! i, pairs ! i)
                 \<and> (\<exists>n'. compileNode e (ns ! i) = Inr (n', fst (pairs ! i))))"
proof -
  obtain ps where p: "compileNodes e ns = Inr (ns', ps)"
    using assms(1) by (auto split: sum.splits prod.splits if_splits)
  have l: "length ps = length ns" "length ns' = length ns"
    using compileNodes_length [OF p] by simp_all
  then have "2 * length ps > 1" using assms(2) by (cases ns) auto
  then have c: "cex = Some (NodeListExecutor ps)" using assms(1) p by auto
  have "compileEntry e (ns ! i) = Inr (ns' ! i, ps ! i)
        \<and> (\<exists>n'. compileNode e (ns ! i) = Inr (n', fst (ps ! i)))" if "i < length ns" for i
  proof -
    have a: "compileEntry e (ns ! i) = Inr (ns' ! i, ps ! i)"
      using compileNodes_nth [OF p that] .
    then have "compileEntry e (ns ! i) = Inr (ns' ! i, fst (ps ! i), snd (ps ! i))" by simp
    then show ?thesis using a compileEntry_unit by blast
  qed
  then show ?thesis using c l by blast
qed

text \<open>
  Claim C10, amended. Take an element other than \<^verbatim>\<open>SCRIPT\<close> that carries a terminal
  directive attribute with the empty string as value. Terminal detection never matches
  that attribute: whichever terminal executor it returns is of another directive. When no
  other terminal directive attribute of the element has a non-empty value, terminal
  detection matches nothing and leaves the element alone; the unit of the element is the
  one of the normal attribute scan (wrapped for a \<^verbatim>\<open>TEXTAREA\<close>); whenever that scan raises
  no error the unit is not terminal, and if the element has children they are compiled, by
  \<^verbatim>\<open>compile\<close> and by \<^verbatim>\<open>compileNodeList\<close> alike: the child unit is present and holds one pair
  for every child, in order, which is the result of compiling that child (its unit being
  the one \<^verbatim>\<open>compileNode\<close> yields for it) and, through it, its own children.
\<close>

theorem empty_terminal_attribute_falls_to_normal_scan:
  assumes "nodeType el = 1" and "tagName el \<noteq> ''SCRIPT''"
      and "t \<in> set (getTerminalBindings e)"
      and "getAttribute el (config_prefix e @ t) = Some []"
  shows "(\<forall>el' b. processTerminalBinding e el = Inr (el', Some b) \<longrightarrow> name (ex_descriptor b) \<noteq> t)
       \<and> ((\<forall>t' \<in> set (getTerminalBindings e).
             getAttribute el (config_prefix e @ t') = None
             \<or> getAttribute el (config_prefix e @ t') = Some []) \<longrightarrow>
          processTerminalBinding e el = Inr (el, None)
          \<and> compileNode e el =
              (case processNormalBinding e el of
                 Inl err \<Rightarrow> Inl err
               | Inr (el', ex) \<Rightarrow>
                   Inr (el', if tagName el = ''TEXTAREA'' then Some (TextareaExecutor ex) else ex))
          \<and> (\<forall>el' ex. compileNode e el = Inr (el', ex) \<longrightarrow>
                \<not> is_terminal ex
                \<and> (childNodes el \<noteq> [] \<longrightarrow>
                     compile e (SingleNode el) =
                       (case compileNodeList e (childNodes el) of
                          Inl err \<Rightarrow> Inl err
                        | Inr (cs', cex) \<Rightarrow>
                            Inr (SingleNode (setChildNodes cs' el'),
                                 \<lparr> c_executor = map_option OnNode ex, c_childExecutor = cex \<rparr>))
                     \<and> compileEntry e el =
                       (case compileNodeList e (childNodes el) of
                          Inl err \<Rightarrow> Inl err
                        | Inr (cs', cex) \<Rightarrow> Inr (setChildNodes cs' el', ex, cex))
                     \<and> (\<forall>cs' cex. compileNodeList e (childNodes el) = Inr (cs', cex) \<longrightarrow>
                          (\<exists>pairs. cex = Some (NodeListExecutor pairs)
                             \<and> length pairs = length (childNodes el)
                             \<and> length cs' = length (childNodes el)
                             \<and> (\<forall>i < length (childNodes el).
                                   compileEntry e (childNodes el ! i) = Inr (cs' ! i, pairs ! i)
                                   \<and> (\<exists>n'. compileNode e (childNodes el ! i)
                                              = Inr (n', fst (pairs ! i)))))))))"
proof -
  have M: "name (ex_descriptor b) \<noteq> t" if "processTerminalBinding e el = Inr (el', Some b)" for el' b
  proof -
    have "terminalLoop e el (getTerminalBindings e) = Inr (el', Some b)"
      using that by (simp add: processTerminalBinding_def)
    then obtain v where "getAttribute el (config_prefix e @ name (ex_descriptor b)) = Some v" "v \<noteq> []"
      using terminalLoop_match by blast
    then show ?thesis using assms(4) by auto
  qed
  have H: "hasAttributes el" using assms(4) by (rule getAttribute_hasAttributes)
  have rest: "processTerminalBinding e el = Inr (el, None)
          \<and> compileNode e el =
              (case processNormalBinding e el of
                 Inl err \<Rightarrow> Inl err
               | Inr (el', ex) \<Rightarrow>
                   Inr (el', if tagName el = ''TEXTAREA'' then Some (TextareaExecutor ex) else ex))
          \<and> (\<forall>el' ex. compileNode e el = Inr (el', ex) \<longrightarrow>
                \<not> is_terminal ex
                \<and> (childNodes el \<noteq> [] \<longrightarrow>
                     compile e (SingleNode el) =
                       (case compileNodeList e (childNodes el) of
                          Inl err \<Rightarrow> Inl err
                        | Inr (cs', cex) \<Rightarrow>
                            Inr (SingleNode (setChildNodes cs' el'),
                                 \<lparr> c_executor = map_option OnNode ex, c_childExecutor = cex \<rparr>))
                     \<and> compileEntry e el =
                       (case compileNodeList e (childNodes el) of
                          Inl err \<Rightarrow> Inl err
                        | Inr (cs', cex) \<Rightarrow> Inr (setChildNodes cs' el', ex, cex))
                     \<and> (\<forall>cs' cex. compileNodeList e (childNodes el) = Inr (cs', cex) \<longrightarrow>
                          (\<exists>pairs. cex = Some (NodeListExecutor pairs)
                             \<and> length pairs = length (childNodes el)
                             \<and> length cs' = length (childNodes el)
                             \<and> (\<forall>i < length (childNodes el).
                                   compileEntry e (childNodes el ! i) = Inr (cs' ! i, pairs ! i)
                                   \<and> (\<exists>n'. compileNode e (childNodes el ! i)
                                              = Inr (n', fst (pairs ! i))))))))"
    if a5: "\<forall>t' \<in> set (getTerminalBindings e).
             getAttribute el (config_prefix e @ t') = None
             \<or> getAttribute el (config_prefix e @ t') = Some []"
  proof -
    have T: "processTerminalBinding e el = Inr (el, None)"
      unfolding processTerminalBinding_def using a5 by (rule terminalLoop_no_match)
    have N: "compileNode e el =
             (case processNormalBinding e el of
                Inl err \<Rightarrow> Inl err
              | Inr (el', ex) \<Rightarrow>
                  Inr (el', if tagName el = ''TEXTAREA'' then Some (TextareaExecutor ex) else ex))"
    proof (cases "processNormalBinding e el")
      case (Inl err)
      then show ?thesis using assms(1,2) T H by (simp add: compileNode_def compileElement_def)
    next
      case (Inr r)
      obtain el' ex where r: "r = (el', ex)" by (cases r)
      have "tagName el' = tagName el"
        using processNormalBinding_frame Inr r unfolding same_frame_def by blast
      then show ?thesis using assms(1,2) T H Inr r by (simp add: compileNode_def compileElement_def)
    qed
    have R: "\<not> is_terminal ex
                \<and> (childNodes el \<noteq> [] \<longrightarrow>
                     compile e (SingleNode el) =
                       (case compileNodeList e (childNodes el) of
                          Inl err \<Rightarrow> Inl err
                        | Inr (cs', cex) \<Rightarrow>
                            Inr (SingleNode (setChildNodes cs' el'),
                                 \<lparr> c_executor = map_option OnNode ex, c_childExecutor = cex \<rparr>))
                     \<and> compileEntry e el =
                       (case compileNodeList e (childNodes el) of
                          Inl err \<Rightarrow> Inl err
                        | Inr (cs', cex) \<Rightarrow> Inr (setChildNodes cs' el', ex, cex))
                     \<and> (\<forall>cs' cex. compileNodeList e (childNodes el) = Inr (cs', cex) \<longrightarrow>
                          (\<exists>pairs. cex = Some (NodeListExecutor pairs)
                             \<and> length pairs = length (childNodes el)
                             \<and> length cs' = length (childNodes el)
                             \<and> (\<forall>i < length (childNodes el).
                                   compileEntry e (childNodes el ! i) = Inr (cs' ! i, pairs ! i)
                                   \<and> (\<exists>n'. compileNode e (childNodes el ! i)
                                              = Inr (n', fst (pairs ! i)))))))"
      if c: "compileNode e el = Inr (el', ex)" for el' ex
    proof -
      obtain ex0 where p: "processNormalBinding e el = Inr (el', ex0)"
        and x: "ex = (if tagName el = ''TEXTAREA'' then Some (TextareaExecutor ex0) else ex0)"
        using c N by (auto split: sum.splits)
      have nt: "\<not> is_terminal ex" using processNormalBinding_not_terminal [OF p] x by auto
      have fr: "same_frame el el'" using p by (rule processNormalBinding_frame)
      have a: "compile e (SingleNode el) =
                      (case compileNodeList e (childNodes el) of
                         Inl err \<Rightarrow> Inl err
                       | Inr (cs', cex) \<Rightarrow>
                           Inr (SingleNode (setChildNodes cs' el'),
                                \<lparr> c_executor = map_option OnNode ex, c_childExecutor = cex \<rparr>))"
        if "childNodes el \<noteq> []"
        using that c nt fr assms(1,2)
        by (simp add: compile_def hasChildNodes_def same_frame_def del: compileNodeList.simps)
      have b: "compileEntry e el =
                      (case compileNodeList e (childNodes el) of
                         Inl err \<Rightarrow> Inl err
                       | Inr (cs', cex) \<Rightarrow> Inr (setChildNodes cs' el', ex, cex))"
        if "childNodes el \<noteq> []"
        using that c nt by (cases el) (simp del: compileNodeList.simps)
      show ?thesis using nt a b compileNodeList_children by blast
    qed
    show ?thesis using T N R by blast
  qed
  show ?thesis using M rest by blast
qed

text \<open>
  The theorem at work on an element with two children, the second of which has a child of
  its own with a directive.
\<close>

theorem empty_terminal_attribute_falls_to_normal_scan_witness:
  "processTerminalBinding demo_env demo_nodeD = Inr (demo_nodeD, None)
   \<and> compile demo_env (SingleNode demo_nodeD)
       = Inr (SingleNode (Node 1 ''DIV'' [] []
                            [Node 1 ''P'' [] [] [], Node 1 ''UL'' [] [] [Node 1 ''LI'' [] [] []]]),
              \<lparr> c_executor = Some (OnNode (NormalExecutor
                    [demo_if_executor [], demo_bexecutor ''bind'' ''x'' 0 False])),
                c_childExecutor = Some (NodeListExecutor
                    [(Some (NormalExecutor [demo_bexecutor ''bind'' ''y'' 0 False]), None),
                     (None, Some (NodeListExecutor
                        [(Some (NormalExecutor [demo_bexecutor ''class'' ''k'' 10 False]),
                          None)]))]) \<rparr>)"
proof -
  have 1: "nodeType demo_nodeD = 1" by (simp add: demo_nodeD_def)
  have 2: "tagName demo_nodeD \<noteq> ''SCRIPT''" by (simp add: demo_nodeD_def)
  have 3: "''if'' \<in> set (getTerminalBindings demo_env)" by (simp add: demo_defs)
  have 4: "getAttribute demo_nodeD (config_prefix demo_env @ ''if'') = Some []"
    by (simp add: model_defs demo_defs demo_nodeD_def)
  show ?thesis
    using empty_terminal_attribute_falls_to_normal_scan [OF 1 2 3 4]
    by (simp add: model_defs demo_defs demo_nodeD_def)
qed

text \<open>
  Claim C10 as stated fails on a \<^verbatim>\<open>SCRIPT\<close> element: \<^verbatim>\<open>compileNode\<close> compiles no
  \<^verbatim>\<open>SCRIPT\<close> and \<^verbatim>\<open>compile\<close> does not descend into one. \<open>demo_script\<close> carries \<open>d-if\<close> with
  the empty string as value and \<open>d-bind\<close>; the normal attribute scan would strip both and
  yield a unit, yet the element is left alone with no unit, and its child, a text with
  interpolation, is not compiled.
\<close>

theorem script_with_empty_terminal_attribute_counterexample:
  "nodeType demo_script = 1
   \<and> ''if'' \<in> set (getTerminalBindings demo_env)
   \<and> getAttribute demo_script (config_prefix demo_env @ ''if'') = Some []
   \<and> compileNode demo_env demo_script = Inr (demo_script, None)
   \<and> compile demo_env (SingleNode demo_script)
       = Inr (SingleNode demo_script, \<lparr> c_executor = None, c_childExecutor = None \<rparr>)
   \<and> processNormalBinding demo_env demo_script
       = Inr (Node 1 ''SCRIPT'' [] [] [Node 3 [] [] ''Hi {{n}}!'' []],
              Some (NormalExecutor [demo_if_executor [], demo_bexecutor ''bind'' ''x'' 0 False]))"
  by (simp add: model_defs demo_defs demo_script_def)

section \<open>Terminal directives\<close>

lemma terminalLoop_first_match:
  assumes "\<forall>t \<in> set before. t \<noteq> [] \<and> (getAttribute el (config_prefix e @ t) = None
                 \<or> getAttribute el (config_prefix e @ t) = Some [])"
      and "nm \<noteq> []" and "getAttribute el (config_prefix e @ nm) = Some ex" and "ex \<noteq> []"
  shows "terminalLoop e el (before @ nm # after) =
           createExecutor e el \<lparr> name = nm, expression = ex, attrName = None,
                                 isInterpolate = False, isTerminal = True \<rparr>"
  using assms by (induction before) auto

text \<open>
  Claim C2, amended. Take an element other than \<^verbatim>\<open>SCRIPT\<close> and \<^verbatim>\<open>TEXTAREA\<close>, and the first
  name of the registry's terminal list whose prefixed attribute the element carries with a
  non-empty value (the names before it are non-empty and their attributes are missing or
  empty), that name having a definition which does not reset \<^verbatim>\<open>isTerminal\<close>. Then the unit
  of the element is the single terminal executor of that directive; of the element only
  that attribute changes (it is removed unless retained), so no other attribute is scanned;
  and no child unit is compiled, neither by \<^verbatim>\<open>compile\<close> nor by \<^verbatim>\<open>compileNodeList\<close>.
\<close>

theorem terminal_binding_short_circuits:
  assumes "nodeType el = 1" and "tagName el \<noteq> ''SCRIPT''" and "tagName el \<noteq> ''TEXTAREA''"
      and "getTerminalBindings e = before @ nm # after"
      and "\<forall>t \<in> set before. t \<noteq> [] \<and> (getAttribute el (config_prefix e @ t) = None
                 \<or> getAttribute el (config_prefix e @ t) = Some [])"
      and "nm \<noteq> []" and "getAttribute el (config_prefix e @ nm) = Some ex" and "ex \<noteq> []"
      and "getDefinintionByName e nm = Some df" and "def_isTerminal df \<noteq> Some False"
  shows "let b = \<lparr> ex_descriptor =
                     util_extend \<lparr> name = nm, expression = ex, attrName = None,
                                   isInterpolate = False, isTerminal = True \<rparr> df,
                   ex_isTerminal = True, ex_priority = def_priority df \<rparr>;
             el' = (if def_retainAttribute df then el
                    else removeAttribute (config_prefix e @ nm) el)
         in compileNode e el = Inr (el', Some (BindingExecutor b))
          \<and> compile e (SingleNode el)
              = Inr (SingleNode el',
                     \<lparr> c_executor = Some (OnNode (BindingExecutor b)), c_childExecutor = None \<rparr>)
          \<and> compileEntry e el = Inr (el', Some (BindingExecutor b), None)"
proof -
  define d where "d = \<lparr> name = nm, expression = ex, attrName = None,
                                   isInterpolate = False, isTerminal = True \<rparr>"
  define b where "b = \<lparr> ex_descriptor = util_extend d df,
                   ex_isTerminal = True, ex_priority = def_priority df \<rparr>"
  define el' where "el' = (if def_retainAttribute df then el
                    else removeAttribute (config_prefix e @ nm) el)"
  have it: "isTerminal (util_extend d df)"
  proof (cases "def_isTerminal df")
    case None
    then show ?thesis by (simp add: util_extend_def d_def)
  next
    case (Some v)
    then have "v" using assms(10) by simp
    then show ?thesis using Some by (simp add: util_extend_def)
  qed
  have ce: "createExecutor e el d = Inr (el', Some b)"
  proof -
    have "name d = nm" by (simp add: d_def)
    then show ?thesis
      using assms(1,9) it by (simp add: createExecutor_def b_def el'_def Let_def)
  qed
  have tl: "processTerminalBinding e el = Inr (el', Some b)"
    unfolding processTerminalBinding_def assms(4)
    using terminalLoop_first_match [OF assms(5,6,7,8)] ce by (simp add: d_def)
  have fr: "same_frame el el'" using ce by (rule createExecutor_frame)
  have H: "hasAttributes el" using assms(7) by (rule getAttribute_hasAttributes)
  have cE: "compileElement e el = Inr (el', Some (BindingExecutor b))"
    using tl H fr assms(3) by (simp add: compileElement_def same_frame_def)
  have cN: "compileNode e el = Inr (el', Some (BindingExecutor b))"
    using cE assms(1,2) by (simp add: compileNode_def)
  have bt: "is_terminal (Some (BindingExecutor b))" by (simp add: b_def)
  have c: "compile e (SingleNode el)
              = Inr (SingleNode el',
                     \<lparr> c_executor = Some (OnNode (BindingExecutor b)), c_childExecutor = None \<rparr>)"
    using cN bt assms(1) by (simp add: compile_def del: is_terminal.simps)
  have en: "compileEntry e el = Inr (el', Some (BindingExecutor b), None)"
    using cN bt by (cases el) (simp del: is_terminal.simps compileNodeList.simps)
  show ?thesis
    unfolding Let_def d_def [symmetric] b_def [symmetric] el'_def [symmetric]
    using cN c en by simp
qed

theorem terminal_binding_short_circuits_witness:
  "compile demo_env (SingleNode demo_nodeE)
     = Inr (SingleNode (Node 1 ''DIV'' [(''d-bind'', ''x'')] []
                          [Node 1 ''P'' [(''d-bind'', ''y'')] [] []]),
            \<lparr> c_executor = Some (OnNode (BindingExecutor (demo_if_executor ''ok''))),
              c_childExecutor = None \<rparr>)
   \<and> compileEntry demo_env demo_nodeE
     = Inr (Node 1 ''DIV'' [(''d-bind'', ''x'')] [] [Node 1 ''P'' [(''d-bind'', ''y'')] [] []],
            Some (BindingExecutor (demo_if_executor ''ok'')), None)"
proof -
  have 1: "nodeType demo_nodeE = 1" by (simp add: demo_nodeE_def)
  have 2: "tagName demo_nodeE \<noteq> ''SCRIPT''" by (simp add: demo_nodeE_def)
  have 3: "tagName demo_nodeE \<noteq> ''TEXTAREA''" by (simp add: demo_nodeE_def)
  have 4: "getTerminalBindings demo_env = [] @ ''if'' # []" by (simp add: demo_defs demo_nodeE_def)
  have 5: "\<forall>t \<in> set []. t \<noteq> [] \<and> (getAttribute demo_nodeE (config_prefix demo_env @ t) = None
                 \<or> getAttribute demo_nodeE (config_prefix demo_env @ t) = Some [])" by simp
  have 6: "''if'' \<noteq> []" by simp
  have 7: "getAttribute demo_nodeE (config_prefix demo_env @ ''if'') = Some ''ok''"
    by (simp add: model_defs demo_defs demo_nodeE_def)
  have 8: "''ok'' \<noteq> []" by simp
  have 9: "getDefinintionByName demo_env ''if''
             = Some \<lparr> def_priority = 100, def_isTerminal = Some True, def_retainAttribute = False \<rparr>"
    by (simp add: demo_defs demo_nodeE_def)
  have 10: "def_isTerminal \<lparr> def_priority = 100, def_isTerminal = Some True, def_retainAttribute = False \<rparr>
              \<noteq> Some False" by simp
  show ?thesis
    using terminal_binding_short_circuits [OF 1 2 3 4 5 6 7 8 9 10]
    by (simp add: Let_def util_extend_def demo_defs demo_nodeE_def)
qed

text \<open>
  Claim C2 as stated fails on an element whose terminal directive attribute has the empty
  string as value: \<open>demo_nodeF\<close> carries \<open>d-if\<close> (a terminal directive) and \<open>d-class\<close>, yet its
  unit is the one of the normal scan, holding both directives, and its child is compiled.
\<close>

theorem terminal_attribute_with_empty_value_counterexample:
  "''if'' \<in> set (getTerminalBindings demo_env)
   \<and> getAttribute demo_nodeF (config_prefix demo_env @ ''if'') = Some []
   \<and> getAttribute demo_nodeF (config_prefix demo_env @ ''class'') = Some ''k''
   \<and> compile demo_env (SingleNode demo_nodeF)
       = Inr (SingleNode (Node 1 ''DIV'' [] [] [Node 1 ''P'' [(''d-on'', ''y'')] [] []]),
              \<lparr> c_executor = Some (OnNode (NormalExecutor
                    [demo_if_executor [], demo_bexecutor ''class'' ''k'' 10 False])),
                c_childExecutor = Some (NodeListExecutor
                    [(Some (NormalExecutor [demo_bexecutor ''on'' ''y'' 0 True]), None)]) \<rparr>)"
  by (simp add: model_defs demo_defs demo_nodeF_def)

section \<open>Which attributes compilation removes\<close>

lemma strippedNames_append:
  "strippedNames e (xs @ ys) = strippedNames e xs @ strippedNames e ys"
  by (simp add: strippedNames_def)

lemma set_strippedNames:
  "set (strippedNames e bs) =
     (\<lambda>b. config_prefix e @ name (ex_descriptor b)) ` {b \<in> set bs. \<not> retainAttribute (ex_descriptor b)}"
  by (auto simp: strippedNames_def)

lemma strips_refl: "strips e el el []"
  by (simp add: strips_def same_frame_refl strippedNames_def)

lemma strips_trans:
  assumes "strips e a b xs" and "strips e b c ys"
  shows "strips e a c (xs @ ys)"
proof -
  have "attributes c = filter (\<lambda>kv. fst kv \<notin> set (strippedNames e ys))
                         (filter (\<lambda>kv. fst kv \<notin> set (strippedNames e xs)) (attributes a))"
    using assms by (simp add: strips_def)
  also have "\<dots> = filter (\<lambda>kv. fst kv \<notin> set (strippedNames e (xs @ ys))) (attributes a)"
    by (auto simp: strippedNames_append intro: filter_cong)
  finally show ?thesis
    using assms same_frame_trans unfolding strips_def by (auto simp: same_frame_def)
qed

lemma strips_set_cong:
  assumes "set bs = set bs'" and "strips e a b bs"
  shows "strips e a b bs'"
  using assms unfolding strips_def set_strippedNames by simp

lemma attributes_removeAttribute:
  "attributes (removeAttribute a el) = filter (\<lambda>kv. fst kv \<noteq> a) (attributes el)"
  by (cases el) simp

lemma util_extend_name: "name (util_extend d df) = name d"
  by (simp add: util_extend_def)

lemma util_extend_retain: "retainAttribute (util_extend d df) = def_retainAttribute df"
  by (simp add: util_extend_def)

lemma createExecutor_cases:
  assumes "createExecutor e el d = Inr (el', r)"
  shows "(r = None \<and> el' = el \<and> getDefinintionByName e (name d) = None)
       \<or> (\<exists>df. getDefinintionByName e (name d) = Some df
              \<and> r = Some \<lparr> ex_descriptor = util_extend d df,
                            ex_isTerminal = isTerminal (util_extend d df),
                            ex_priority = def_priority df \<rparr>
              \<and> el' = (if \<not> def_retainAttribute df \<and> nodeType el = 1
                       then removeAttribute (config_prefix e @ name d) el else el))"
  using assms by (auto simp: createExecutor_def Let_def split: option.splits if_splits)

lemma createExecutor_strips:
  assumes "createExecutor e el d = Inr (el', r)" and "nodeType el = 1"
  shows "strips e el el' (case r of None \<Rightarrow> [] | Some b \<Rightarrow> [b])"
proof -
  have fr: "same_frame el el'" using assms(1) by (rule createExecutor_frame)
  from createExecutor_cases [OF assms(1)] show ?thesis
  proof (elim disjE exE conjE)
    assume "r = None" "el' = el"
    then show ?thesis by (simp add: strips_refl)
  next
    fix df
    assume df: "getDefinintionByName e (name d) = Some df"
       and r: "r = Some \<lparr> ex_descriptor = util_extend d df,
                            ex_isTerminal = isTerminal (util_extend d df),
                            ex_priority = def_priority df \<rparr>"
       and el': "el' = (if \<not> def_retainAttribute df \<and> nodeType el = 1
                       then removeAttribute (config_prefix e @ name d) el else el)"
    show ?thesis
      using fr df r el' assms(2)
      by (auto simp: strips_def strippedNames_def util_extend_name util_extend_retain
                     attributes_removeAttribute)
  qed
qed

lemma strips_nodeType: "strips e el el' bs \<Longrightarrow> nodeType el' = nodeType el"
  by (simp add: strips_def same_frame_def)

lemma scanAttributes_strips:
  "scanAttributes e attrs el acc = Inr (el', exs) \<Longrightarrow> nodeType el = 1 \<Longrightarrow>
   \<exists>new. exs = acc @ new \<and> strips e el el' new"
proof (induction e attrs el acc rule: scanAttributes.induct)
  case (1 e element executors)
  then show ?case by (simp add: strips_refl)
next
  case (2 e attr rest element executors)
  show ?case
  proof (cases "attrDescriptor e attr")
    case None
    then show ?thesis using 2 by simp
  next
    case (Some d)
    note ad = Some
    show ?thesis
    proof (cases "createExecutor e element d")
      case (Inl err)
      then show ?thesis using 2(4) ad by simp
    next
      case (Inr r)
      obtain element' ex where r: "r = (element', ex)" by (cases r)
      have st: "strips e element element' (case ex of None \<Rightarrow> [] | Some b \<Rightarrow> [b])"
        using createExecutor_strips Inr r 2(5) by blast
      have nt: "nodeType element' = 1" using st 2(5) strips_nodeType by fastforce
      show ?thesis
      proof (cases ex)
        case None
        have "scanAttributes e rest element' executors = Inr (el', exs)"
          using 2(4) ad Inr r None by simp
        from 2(2) [OF ad Inr r [symmetric] None this nt]
        obtain new where "exs = executors @ new" "strips e element' el' new" by blast
        then show ?thesis using strips_trans [OF st] None by auto
      next
        case (Some b)
        have "scanAttributes e rest element' (executors @ [b]) = Inr (el', exs)"
          using 2(4) ad Inr r Some by simp
        from 2(3) [OF ad Inr r [symmetric] Some this nt]
        obtain new where "exs = (executors @ [b]) @ new" "strips e element' el' new" by blast
        then show ?thesis using strips_trans [OF st] Some by auto
      qed
    qed
  qed
qed

lemma scanAttributes_covers:
  "scanAttributes e attrs el acc = Inr (el', exs) \<Longrightarrow>
   (set acc \<subseteq> set exs)
   \<and> (\<forall>attr \<in> set attrs. \<forall>d df. attrDescriptor e attr = Some d
          \<longrightarrow> getDefinintionByName e (name d) = Some df
          \<longrightarrow> (\<exists>b \<in> set exs. ex_descriptor b = util_extend d df))"
proof (induction e attrs el acc rule: scanAttributes.induct)
  case (1 e element executors)
  then show ?case by simp
next
  case (2 e attr rest element executors)
  show ?case
  proof (cases "attrDescriptor e attr")
    case None
    then show ?thesis using 2 by simp
  next
    case (Some d)
    note ad = Some
    show ?thesis
    proof (cases "createExecutor e element d")
      case (Inl err)
      then show ?thesis using 2(4) ad by simp
    next
      case (Inr r)
      obtain element' ex where r: "r = (element', ex)" by (cases r)
      note cc = createExecutor_cases [OF Inr [unfolded r]]
      show ?thesis
      proof (cases ex)
        case None
        have "scanAttributes e rest element' executors = Inr (el', exs)"
          using 2(4) ad Inr r None by simp
        from 2(2) [OF ad Inr r [symmetric] None this]
        show ?thesis using cc None ad by auto
      next
        case (Some b)
        have "scanAttributes e rest element' (executors @ [b]) = Inr (el', exs)"
          using 2(4) ad Inr r Some by simp
        from 2(3) [OF ad Inr r [symmetric] Some this]
        have ih: "set (executors @ [b]) \<subseteq> set exs"
          "\<forall>attr \<in> set rest. \<forall>d df. attrDescriptor e attr = Some d
          \<longrightarrow> getDefinintionByName e (name d) = Some df
          \<longrightarrow> (\<exists>b \<in> set exs. ex_descriptor b = util_extend d df)" by auto
        have "\<exists>df. getDefinintionByName e (name d) = Some df \<and> ex_descriptor b = util_extend d df"
          using cc Some by auto
        then show ?thesis using ih ad by auto
      qed
    qed
  qed
qed

lemma set_js_sort_priority:
  fixes f :: "'a \<Rightarrow> int"
  shows "set (js_sort (\<lambda>a b. f b - f a) xs) = set xs"
  by (simp add: js_sort_sort_key)

lemma processNormalBinding_units:
  assumes "processNormalBinding e el = Inr (el', ex)"
  shows "\<exists>exs. scanAttributes e (attributes el) el [] = Inr (el', exs) \<and> set (units ex) = set exs"
proof -
  obtain exs where s: "scanAttributes e (attributes el) el [] = Inr (el', exs)"
    using assms by (auto simp: processNormalBinding_def split: sum.splits prod.splits if_splits)
  have "set (units ex) = set exs"
    using assms s by (auto simp: processNormalBinding_def set_js_sort_priority split: if_splits)
  then show ?thesis using s by blast
qed

lemma processNormalBinding_strips:
  assumes "processNormalBinding e el = Inr (el', ex)" and "nodeType el = 1"
  shows "strips e el el' (units ex)"
proof -
  obtain exs where s: "scanAttributes e (attributes el) el [] = Inr (el', exs)"
    and u: "set (units ex) = set exs"
    using processNormalBinding_units [OF assms(1)] by blast
  have "strips e el el' exs" using scanAttributes_strips [OF s assms(2)] by simp
  then show ?thesis using u strips_set_cong by metis
qed

lemma terminalLoop_strips:
  "terminalLoop e el ts = Inr (el', r) \<Longrightarrow> nodeType el = 1 \<Longrightarrow>
   strips e el el' (case r of None \<Rightarrow> [] | Some b \<Rightarrow> [b])"
proof (induction e el ts rule: terminalLoop.induct)
  case (1 e element)
  then show ?case by (simp add: strips_refl)
next
  case (2 e element nm rest)
  then show ?case
    by (auto simp: strips_refl split: if_splits option.splits dest: createExecutor_strips)
qed

lemma terminalLoop_none_unchanged:
  "terminalLoop e el ts = Inr (el', None) \<Longrightarrow> el' = el"
proof (induction e el ts rule: terminalLoop.induct)
  case (1 e element)
  then show ?case by simp
next
  case (2 e element nm rest)
  then show ?case
    by (auto split: if_splits option.splits dest: createExecutor_cases)
qed

lemma compileElement_cases:
  assumes "compileElement e el = Inr (el', ex)"
  shows "\<exists>ex0. units ex = units ex0
          \<and> ((\<not> hasAttributes el \<and> el' = el \<and> ex0 = None)
             \<or> (\<exists>b. processTerminalBinding e el = Inr (el', Some b) \<and> ex0 = Some (BindingExecutor b))
             \<or> (processTerminalBinding e el = Inr (el, None) \<and> processNormalBinding e el = Inr (el', ex0)))"
proof (cases "hasAttributes el")
  case False
  then have "el' = el \<and> units ex = units None"
    using assms by (auto simp: compileElement_def split: if_splits)
  then show ?thesis using False by blast
next
  case True
  show ?thesis
  proof (cases "processTerminalBinding e el")
    case (Inl err)
    then show ?thesis using assms True by (simp add: compileElement_def)
  next
    case (Inr r)
    obtain el1 tb where r: "r = (el1, tb)" by (cases r)
    show ?thesis
    proof (cases tb)
      case None
      have el1: "el1 = el"
        using Inr r None terminalLoop_none_unchanged unfolding processTerminalBinding_def by blast
      obtain ex0 where "processNormalBinding e el = Inr (el', ex0)" "units ex = units ex0"
        using assms True Inr r None el1
        by (auto simp: compileElement_def split: sum.splits prod.splits if_splits)
      then show ?thesis using Inr r None el1 by blast
    next
      case (Some b)
      have "el' = el1 \<and> units ex = units (Some (BindingExecutor b))"
        using assms True Inr r Some by (auto simp: compileElement_def split: if_splits)
      then show ?thesis using Inr r Some by blast
    qed
  qed
qed

lemma compileElement_strips:
  assumes "compileElement e el = Inr (el', ex)" and "nodeType el = 1"
  shows "strips e el el' (units ex)"
proof -
  from compileElement_cases [OF assms(1)] obtain ex0 where u: "units ex = units ex0"
    and c: "(\<not> hasAttributes el \<and> el' = el \<and> ex0 = None)
             \<or> (\<exists>b. processTerminalBinding e el = Inr (el', Some b) \<and> ex0 = Some (BindingExecutor b))
             \<or> (processTerminalBinding e el = Inr (el, None) \<and> processNormalBinding e el = Inr (el', ex0))"
    by blast
  from c have "strips e el el' (units ex0)"
  proof (elim disjE conjE exE)
    assume "el' = el" "ex0 = None"
    then show ?thesis by (simp add: strips_refl)
  next
    fix b
    assume "processTerminalBinding e el = Inr (el', Some b)" "ex0 = Some (BindingExecutor b)"
    then show ?thesis
      using terminalLoop_strips [of e el "getTerminalBindings e" el' "Some b"] assms(2)
      by (simp add: processTerminalBinding_def)
  next
    assume "processNormalBinding e el = Inr (el', ex0)"
    then show ?thesis using assms(2) by (rule processNormalBinding_strips)
  qed
  then show ?thesis using u by simp
qed

lemma indexOf_prefix: "indexOf (p @ x) p = 0"
proof (cases "p @ x")
  case Nil
  then show ?thesis by simp
next
  case (Cons c cs)
  have "prefix p (p @ x)" by simp
  then show ?thesis using Cons by simp
qed

text \<open>
  Claim C8, amended. Compiling an element removes exactly the attributes named prefix +
  name for the resolved descriptors of its unit whose definition does not set
  \<^verbatim>\<open>retainAttribute\<close>, and changes nothing else of the element. Hence, in the normal scan,
  every match with a definition that does not set \<^verbatim>\<open>retainAttribute\<close> has the attribute
  named prefix + its directive name removed; an attribute named prefix + name whose
  definition sets \<^verbatim>\<open>retainAttribute\<close> stays; and an attribute whose name does not hold the
  prefix stays, so an interpolated attribute is never removed on account of its own match.
\<close>

theorem compilation_strips_non_retained_directive_attributes:
  assumes "nodeType el = 1" and "compileElement e el = Inr (el', ex)"
  shows "attributes el' = filter (\<lambda>kv. fst kv \<notin> set (strippedNames e (units ex))) (attributes el)
       \<and> same_frame el el'
       \<and> (\<forall>b \<in> set (units ex). \<exists>df.
             getDefinintionByName e (name (ex_descriptor b)) = Some df
             \<and> retainAttribute (ex_descriptor b) = def_retainAttribute df)
       \<and> (\<forall>kv \<in> set (attributes el). \<forall>d df.
             processTerminalBinding e el = Inr (el, None) \<longrightarrow> attrDescriptor e kv = Some d
             \<longrightarrow> getDefinintionByName e (name d) = Some df \<longrightarrow> \<not> def_retainAttribute df
             \<longrightarrow> config_prefix e @ name d \<notin> fst ` set (attributes el'))
       \<and> (\<forall>kv \<in> set (attributes el). \<forall>nm df.
             fst kv = config_prefix e @ nm \<longrightarrow> getDefinintionByName e nm = Some df
             \<longrightarrow> def_retainAttribute df \<longrightarrow> kv \<in> set (attributes el'))
       \<and> (\<forall>kv \<in> set (attributes el).
             indexOf (fst kv) (config_prefix e) = - 1 \<longrightarrow> kv \<in> set (attributes el'))"
proof -
  have st: "strips e el el' (units ex)" using assms(2,1) by (rule compileElement_strips)
  then have A: "attributes el' = filter (\<lambda>kv. fst kv \<notin> set (strippedNames e (units ex))) (attributes el)"
    and F: "same_frame el el'"
    and D: "\<forall>b \<in> set (units ex). \<exists>df.
             getDefinintionByName e (name (ex_descriptor b)) = Some df
             \<and> retainAttribute (ex_descriptor b) = def_retainAttribute df"
    by (simp_all add: strips_def)
  have C3: "config_prefix e @ name d \<notin> fst ` set (attributes el')"
    if kv: "kv \<in> set (attributes el)" and t: "processTerminalBinding e el = Inr (el, None)"
      and ad: "attrDescriptor e kv = Some d" and df: "getDefinintionByName e (name d) = Some df"
      and nr: "\<not> def_retainAttribute df" for kv d df
  proof -
    have H: "hasAttributes el" using kv by (auto simp: hasAttributes_def)
    from compileElement_cases [OF assms(2)] t H
    obtain ex0 where u: "units ex = units ex0" and p: "processNormalBinding e el = Inr (el', ex0)"
      by auto
    obtain exs where s: "scanAttributes e (attributes el) el [] = Inr (el', exs)"
      and su: "set (units ex0) = set exs"
      using processNormalBinding_units [OF p] by blast
    obtain b where b: "b \<in> set exs" "ex_descriptor b = util_extend d df"
      using scanAttributes_covers [OF s] kv ad df by blast
    have "config_prefix e @ name d \<in> set (strippedNames e (units ex))"
      using b nr u su by (auto simp: set_strippedNames util_extend_name util_extend_retain
                               intro!: image_eqI [where x = b])
    then show ?thesis using A by auto
  qed
  have C4: "kv \<in> set (attributes el')"
    if kv: "kv \<in> set (attributes el)" and k: "fst kv = config_prefix e @ nm"
      and df: "getDefinintionByName e nm = Some df" and r: "def_retainAttribute df" for kv nm df
  proof -
    have "fst kv \<notin> set (strippedNames e (units ex))"
    proof
      assume "fst kv \<in> set (strippedNames e (units ex))"
      then obtain b where b: "b \<in> set (units ex)" "\<not> retainAttribute (ex_descriptor b)"
        "fst kv = config_prefix e @ name (ex_descriptor b)"
        by (auto simp: set_strippedNames)
      then have "name (ex_descriptor b) = nm" using k by simp
      then show False using D b df r by auto
    qed
    then show ?thesis using A kv by simp
  qed
  have C5: "kv \<in> set (attributes el')"
    if kv: "kv \<in> set (attributes el)" and i: "indexOf (fst kv) (config_prefix e) = - 1" for kv
  proof -
    have "fst kv \<notin> set (strippedNames e (units ex))"
      using i by (auto simp: set_strippedNames indexOf_prefix)
    then show ?thesis using A kv by simp
  qed
  show ?thesis using A F D C3 C4 C5 by blast
qed

theorem compilation_strips_non_retained_directive_attributes_witness:
  "compileElement demo_env demo_nodeC
     = Inr (Node 1 ''DIV'' [(''d-on'', ''c'')] [] [],
            Some (NormalExecutor [demo_bexecutor ''class'' ''a'' 10 False,
                                  demo_bexecutor ''on'' ''c'' 0 True,
                                  demo_bexecutor ''bind'' ''b'' 0 False]))
   \<and> attributes (Node 1 ''DIV'' [(''d-on'', ''c'')] [] [])
     = filter (\<lambda>kv. fst kv \<notin> set (strippedNames demo_env
                 [demo_bexecutor ''class'' ''a'' 10 False, demo_bexecutor ''on'' ''c'' 0 True,
                  demo_bexecutor ''bind'' ''b'' 0 False]))
         (attributes demo_nodeC)"
proof -
  have 1: "nodeType demo_nodeC = 1" by (simp add: demo_defs)
  have 2: "compileElement demo_env demo_nodeC
     = Inr (Node 1 ''DIV'' [(''d-on'', ''c'')] [] [],
            Some (NormalExecutor [demo_bexecutor ''class'' ''a'' 10 False,
                                  demo_bexecutor ''on'' ''c'' 0 True,
                                  demo_bexecutor ''bind'' ''b'' 0 False]))"
    by (simp add: model_defs demo_defs)
  show ?thesis
    using 2 compilation_strips_non_retained_directive_attributes [OF 1 2] by simp
qed

text \<open>
  Claim C8 as stated fails on an interpolated attribute: \<open>title\<close> is matched as an
  \<open>attr\<close> binding, the definition of \<open>attr\<close> does not set \<^verbatim>\<open>retainAttribute\<close>, and the
  attribute \<open>title\<close> is still on the element after compilation.
\<close>

theorem interpolated_attribute_is_kept_counterexample:
  "attrDescriptor demo_env (''title'', ''{{t}}'')
     = Some \<lparr> name = ''attr'', expression = ''{{t}}'', attrName = Some ''title'',
              isInterpolate = True, isTerminal = False \<rparr>
   \<and> getDefinintionByName demo_env ''attr''
     = Some \<lparr> def_priority = 0, def_isTerminal = None, def_retainAttribute = False \<rparr>
   \<and> compileElement demo_env demo_nodeG
     = Inr (Node 1 ''DIV'' [(''title'', ''{{t}}'')] [] [],
            Some (NormalExecutor [demo_attr_executor, demo_bexecutor ''bind'' ''x'' 0 False]))"
  by (simp add: model_defs demo_defs demo_nodeG_def demo_attr_executor_def)

section \<open>Static subtrees\<close>

lemma static_attrDescriptor:
  "indexOf (fst kv) (config_prefix e) = - 1 \<Longrightarrow> \<not> hasInterpolation e (snd kv) \<Longrightarrow>
   attrDescriptor e kv = None"
  by (simp add: attrDescriptor_def Let_def)

lemma static_scanAttributes:
  "static_attrs e attrs \<Longrightarrow> scanAttributes e attrs el acc = Inr (el, acc)"
  by (induction attrs) (simp_all add: static_attrs_def static_attrDescriptor)

lemma static_getAttribute:
  assumes "static_attrs e (attributes el)"
  shows "getAttribute el (config_prefix e @ t) = None"
proof (cases "getAttribute el (config_prefix e @ t)")
  case None
  then show ?thesis .
next
  case (Some v)
  then have "(config_prefix e @ t, v) \<in> set (attributes el)"
    by (simp add: getAttribute_def map_of_SomeD)
  then have "indexOf (config_prefix e @ t) (config_prefix e) = - 1"
    using assms by (auto simp: static_attrs_def)
  then show ?thesis by (simp add: indexOf_prefix)
qed

lemma static_compileElement:
  assumes "static_attrs e (attributes el)"
  shows "compileElement e el =
           Inr (el, if tagName el = ''TEXTAREA'' then Some (TextareaExecutor None) else None)"
proof -
  have t: "processTerminalBinding e el = Inr (el, None)"
    unfolding processTerminalBinding_def
    by (rule terminalLoop_no_match) (simp add: static_getAttribute [OF assms])
  have n: "processNormalBinding e el = Inr (el, None)"
    by (simp add: processNormalBinding_def static_scanAttributes [OF assms])
  show ?thesis using t n by (simp add: compileElement_def)
qed

lemma static_compileNode:
  assumes "static_node e n"
  shows "compileNode e n =
           Inr (n, if nodeType n = 1 \<and> tagName n = ''TEXTAREA''
                   then Some (TextareaExecutor None) else None)"
proof (cases n)
  case (Node ty tag attrs tx cs)
  have a: "ty = 1 \<Longrightarrow> static_attrs e (attributes n)"
    using assms Node by (simp add: static_attrs_def)
  have b: "ty = 3 \<Longrightarrow> \<not> hasInterpolation e (textContent n)"
    using assms Node by simp
  show ?thesis
    using a b Node static_compileElement [of e n]
    by (auto simp: compileNode_def compileTextNode_def)
qed

lemma setChildNodes_same: "setChildNodes (childNodes n) n = n"
  by (cases n) simp

lemma installs_nothing_inert:
  "installs_nothing (\<lambda>vm. Inr (case (if c then Some (TextareaExecutor None) else None) of
                              None \<Rightarrow> vm | Some ex \<Rightarrow> exec ex n pvm ph vm))"
  by (simp add: installs_nothing_def Let_def)

lemma installs_nothing_bind:
  assumes "installs_nothing f" and "installs_nothing g"
  shows "installs_nothing (\<lambda>vm. case f vm of Inl x \<Rightarrow> Inl x | Inr vm' \<Rightarrow> g vm')"
  unfolding installs_nothing_def
proof
  fix vm
  obtain vm1 where 1: "f vm = Inr vm1" "bindings vm1 = bindings vm" "nextId vm1 = nextId vm"
    using assms(1) unfolding installs_nothing_def by blast
  obtain vm2 where 2: "g vm1 = Inr vm2" "bindings vm2 = bindings vm1" "nextId vm2 = nextId vm1"
    using assms(2) unfolding installs_nothing_def by blast
  show "\<exists>vm'. (case f vm of Inl x \<Rightarrow> Inl x | Inr vm' \<Rightarrow> g vm') = Inr vm'
           \<and> bindings vm' = bindings vm \<and> nextId vm' = nextId vm"
    using 1 2 by simp
qed

lemma static_compile_aux:
  "static_node e n \<longrightarrow>
     (\<exists>ex cex. compileEntry e n = Inr (n, ex, cex)
        \<and> (\<forall>pvm ph. installs_nothing (exec_entry (ex, cex) n pvm ph)))"
  "(\<forall>n \<in> set ns. static_node e n) \<longrightarrow>
     (\<exists>ps. compileNodes e ns = Inr (ns, ps) \<and> length ps = length ns
        \<and> (\<forall>pvm ph. installs_nothing (exec_pairs ps ns pvm ph)))"
  "(\<forall>n \<in> set ms. static_node e n) \<longrightarrow>
     (\<exists>cex. compileNodeList e ms = Inr (ms, cex) \<and> (cex = None \<longleftrightarrow> ms = [])
        \<and> (\<forall>cx pvm ph. cex = Some cx \<longrightarrow> installs_nothing (exec_list cx ms pvm ph)))"
proof (induction e n and e ns and e ms rule: compileEntry_compileNodes_compileNodeList.induct)
  case (1 e ty tag attrs tx cs)
  show ?case
  proof
    assume st: "static_node e (Node ty tag attrs tx cs)"
    define n where "n = Node ty tag attrs tx cs"
    define ex where "ex = (if nodeType n = 1 \<and> tagName n = ''TEXTAREA''
                   then Some (TextareaExecutor None) else None)"
    have cn: "compileNode e (Node ty tag attrs tx cs) = Inr (n, ex)"
      using static_compileNode [OF st] by (simp add: n_def ex_def)
    have nt: "\<not> is_terminal ex" by (simp add: ex_def)
    have q1: "installs_nothing (\<lambda>vm. Inr (case ex of None \<Rightarrow> vm | Some x \<Rightarrow> exec x n pvm ph vm))" for pvm ph
      unfolding ex_def by (rule installs_nothing_inert)
    show "\<exists>ex cex. compileEntry e (Node ty tag attrs tx cs) = Inr (Node ty tag attrs tx cs, ex, cex)
        \<and> (\<forall>pvm ph. installs_nothing (exec_entry (ex, cex) (Node ty tag attrs tx cs) pvm ph))"
    proof (cases "cs = []")
      case True
      have "compileEntry e (Node ty tag attrs tx cs) = Inr (n, ex, None)"
        using cn True by simp
      moreover have "installs_nothing (exec_entry (ex, None) n pvm ph)" for pvm ph
        using q1 [of pvm ph] by (simp add: installs_nothing_def Let_def)
      ultimately show ?thesis unfolding n_def by blast
    next
      case False
      have cs: "\<forall>c \<in> set cs. static_node e c" using st by simp
      from 1 [OF cn refl] nt False cs
      obtain cex where cl: "compileNodeList e cs = Inr (cs, cex)" and ne: "cex \<noteq> None"
        and q: "\<forall>cx pvm ph. cex = Some cx \<longrightarrow> installs_nothing (exec_list cx cs pvm ph)"
        by (auto simp del: exec_entry.simps exec_list.simps exec_pairs.simps)
      obtain cx where cx: "cex = Some cx" using ne by (auto simp del: exec_entry.simps exec_list.simps exec_pairs.simps)
      have "compileEntry e (Node ty tag attrs tx cs) = Inr (n, ex, cex)"
        using cn cl nt False by (simp add: n_def del: compileNodeList.simps)
      moreover have "installs_nothing (exec_entry (ex, cex) n pvm ph)" for pvm ph
      proof -
        have "installs_nothing (\<lambda>vm. case Inr (case ex of None \<Rightarrow> vm | Some x \<Rightarrow> exec x n pvm ph vm) of
                  Inl x \<Rightarrow> Inl x | Inr vm' \<Rightarrow> exec_list cx cs pvm ph vm')"
          using installs_nothing_bind [OF q1 [of pvm ph]] q cx by blast
        moreover have "exec_entry (ex, cex) n pvm ph
            = (\<lambda>vm. exec_list cx cs pvm ph (case ex of None \<Rightarrow> vm | Some x \<Rightarrow> exec x n pvm ph vm))"
          unfolding n_def by (rule ext) (simp add: cx Let_def del: exec_list.simps)
        ultimately show ?thesis by simp
      qed
      ultimately show ?thesis unfolding n_def by blast
    qed
  qed
next
  case (2 e)
  show ?case by (simp add: installs_nothing_def)
next
  case (3 e nd rest)
  show ?case
  proof
    assume st: "\<forall>n \<in> set (nd # rest). static_node e n"
    from 3(1) st obtain ex cex where ce: "compileEntry e nd = Inr (nd, ex, cex)"
      and q1: "\<forall>pvm ph. installs_nothing (exec_entry (ex, cex) nd pvm ph)" by (auto simp del: exec_entry.simps exec_list.simps exec_pairs.simps)
    from 3(2) [OF ce refl refl] st obtain ps where cr: "compileNodes e rest = Inr (rest, ps)"
      and l: "length ps = length rest"
      and q2: "\<forall>pvm ph. installs_nothing (exec_pairs ps rest pvm ph)" by (auto simp del: exec_entry.simps exec_list.simps exec_pairs.simps)
    have "compileNodes e (nd # rest) = Inr (nd # rest, (ex, cex) # ps)"
      using ce cr by simp
    moreover have "installs_nothing (exec_pairs ((ex, cex) # ps) (nd # rest) pvm ph)" for pvm ph
    proof -
      have "exec_pairs ((ex, cex) # ps) (nd # rest) pvm ph
          = (\<lambda>vm. case exec_entry (ex, cex) nd pvm ph vm of Inl x \<Rightarrow> Inl x
                  | Inr vm' \<Rightarrow> exec_pairs ps rest pvm ph vm')"
        by (rule ext) (simp del: exec_entry.simps)
      then show ?thesis
        using installs_nothing_bind [of "exec_entry (ex, cex) nd pvm ph" "exec_pairs ps rest pvm ph"]
          q1 q2 by simp
    qed
    ultimately show "\<exists>ps. compileNodes e (nd # rest) = Inr (nd # rest, ps)
        \<and> length ps = length (nd # rest)
        \<and> (\<forall>pvm ph. installs_nothing (exec_pairs ps (nd # rest) pvm ph))"
      using l by (auto simp del: exec_entry.simps exec_list.simps exec_pairs.simps)
  qed
next
  case (4 e nodeList)
  show ?case
  proof
    assume st: "\<forall>n \<in> set nodeList. static_node e n"
    from 4 st obtain ps where cr: "compileNodes e nodeList = Inr (nodeList, ps)"
      and l: "length ps = length nodeList"
      and q: "\<forall>pvm ph. installs_nothing (exec_pairs ps nodeList pvm ph)" by (auto simp del: exec_entry.simps exec_list.simps exec_pairs.simps)
    show "\<exists>cex. compileNodeList e nodeList = Inr (nodeList, cex) \<and> (cex = None \<longleftrightarrow> nodeList = [])
        \<and> (\<forall>cx pvm ph. cex = Some cx \<longrightarrow> installs_nothing (exec_list cx nodeList pvm ph))"
    proof (cases "nodeList = []")
      case True
      then show ?thesis using cr l by simp
    next
      case False
      then have "2 * length ps > 1" using l by (cases nodeList) auto
      then have "compileNodeList e nodeList = Inr (nodeList, Some (NodeListExecutor ps))"
        using cr by simp
      moreover have "installs_nothing (exec_list (NodeListExecutor ps) nodeList pvm ph)" for pvm ph
        using q l by (simp add: installs_nothing_def)
      ultimately show ?thesis using False by (auto simp del: exec_entry.simps exec_list.simps exec_pairs.simps)
    qed
  qed
qed

lemma disposer_nil: "disposer [] vm = vm"
  by (simp add: disposer_def js_splice_def Let_def)

lemma static_compileNodeList:
  assumes "\<forall>n \<in> set ms. static_node e n"
  shows "\<exists>cex. compileNodeList e ms = Inr (ms, cex) \<and> (cex = None \<longleftrightarrow> ms = [])
        \<and> (\<forall>cx pvm ph. cex = Some cx \<longrightarrow> installs_nothing (exec_list cx ms pvm ph))"
  using static_compile_aux(3) [of ms e] assms by blast

text \<open>
  Claim C9, amended. Compiling a static subtree leaves the tree as it is and yields no
  unit that creates a binding: the unit of the node is absent (for a \<^verbatim>\<open>TEXTAREA\<close> it is
  the bare wrapper that evaluates the value), and the unit of the children is absent only
  when the node has no children or is a \<^verbatim>\<open>SCRIPT\<close>; otherwise it is a node-list executor
  without binding executors. Running the result on the compiled tree raises nothing,
  leaves the ledger unchanged and owns no binding, and the disposer of an empty owned list
  changes nothing.
\<close>

theorem static_subtree_installs_nothing:
  assumes "static_node e n"
  shows "\<exists>c. compile e (SingleNode n) = Inr (SingleNode n, c)
       \<and> c_executor c = (if nodeType n = 1 \<and> tagName n = ''TEXTAREA''
                         then Some (OnNode (TextareaExecutor None)) else None)
       \<and> (c_childExecutor c = None \<longleftrightarrow> (childNodes n = [] \<or> tagName n = ''SCRIPT''))
       \<and> (\<forall>pvm ph vm. \<exists>vm'. run c (SingleNode n) pvm ph vm = Inr (vm', [])
                               \<and> bindings vm' = bindings vm)
       \<and> (\<forall>vm. disposer [] vm = vm)"
proof -
  define ex where "ex = (if nodeType n = 1 \<and> tagName n = ''TEXTAREA''
                   then Some (TextareaExecutor None) else None)"
  have cn: "(if nodeType n = 11 then Inr (n, None) else compileNode e n) = Inr (n, ex)"
    using static_compileNode [OF assms] by (auto simp: ex_def)
  have nt: "\<not> is_terminal ex" by (simp add: ex_def)
  have cs: "\<forall>c \<in> set (childNodes n). static_node e c" using assms by (cases n) simp
  obtain cex where cl: "compileNodeList e (childNodes n) = Inr (childNodes n, cex)"
    and ne: "cex = None \<longleftrightarrow> childNodes n = []"
    and q: "\<forall>cx pvm ph. cex = Some cx \<longrightarrow> installs_nothing (exec_list cx (childNodes n) pvm ph)"
    using static_compileNodeList [OF cs] by blast
  define cc where "cc = (if tagName n \<noteq> ''SCRIPT'' \<and> hasChildNodes n then cex else None)"
  define c where "c = \<lparr> c_executor = map_option OnNode ex, c_childExecutor = cc \<rparr>"
  have 1: "compile e (SingleNode n) = Inr (SingleNode n, c)"
    using cn nt cl
    by (simp add: compile_def c_def cc_def setChildNodes_same del: compileNodeList.simps)
  have 2: "c_executor c = (if nodeType n = 1 \<and> tagName n = ''TEXTAREA''
                         then Some (OnNode (TextareaExecutor None)) else None)"
    by (simp add: c_def ex_def)
  have 3: "c_childExecutor c = None \<longleftrightarrow> (childNodes n = [] \<or> tagName n = ''SCRIPT'')"
    using ne by (auto simp: c_def cc_def hasChildNodes_def)
  have 4: "\<exists>vm'. run c (SingleNode n) pvm ph vm = Inr (vm', []) \<and> bindings vm' = bindings vm"
    for pvm ph vm
  proof -
    define vm1 where "vm1 = (case ex of None \<Rightarrow> vm | Some x \<Rightarrow> exec x n pvm ph vm)"
    have a: "(case c_executor c of None \<Rightarrow> Inr vm | Some u \<Rightarrow> call_unit u (SingleNode n) pvm ph vm)
               = Inr vm1"
      by (cases ex) (simp_all add: c_def vm1_def)
    have b1: "bindings vm1 = bindings vm" by (simp add: vm1_def ex_def Let_def)
    obtain vm2 where b: "(case c_childExecutor c of None \<Rightarrow> Inr vm1
                          | Some cx \<Rightarrow> call_child cx (SingleNode n) pvm ph vm1) = Inr vm2"
      and b2: "bindings vm2 = bindings vm1"
    proof (cases cc)
      case None
      then show ?thesis using that by (simp add: c_def)
    next
      case (Some cx)
      then have "cex = Some cx" by (auto simp: cc_def split: if_splits)
      then have "installs_nothing (exec_list cx (childNodes n) pvm ph)" using q by blast
      then obtain vm2 where "exec_list cx (childNodes n) pvm ph vm1 = Inr vm2"
        "bindings vm2 = bindings vm1" unfolding installs_nothing_def by blast
      then show ?thesis using that Some by (simp add: c_def del: exec_list.simps)
    qed
    have "run c (SingleNode n) pvm ph vm = Inr (vm2, drop (length (bindings vm)) (bindings vm2))"
      unfolding run_def Let_def a using b by simp
    then show ?thesis using b1 b2 by simp
  qed
  have 5: "\<forall>pvm ph vm. \<exists>vm'. run c (SingleNode n) pvm ph vm = Inr (vm', [])
                               \<and> bindings vm' = bindings vm"
    using 4 by blast
  have "compile e (SingleNode n) = Inr (SingleNode n, c)
       \<and> c_executor c = (if nodeType n = 1 \<and> tagName n = ''TEXTAREA''
                         then Some (OnNode (TextareaExecutor None)) else None)
       \<and> (c_childExecutor c = None \<longleftrightarrow> (childNodes n = [] \<or> tagName n = ''SCRIPT''))
       \<and> (\<forall>pvm ph vm. \<exists>vm'. run c (SingleNode n) pvm ph vm = Inr (vm', [])
                               \<and> bindings vm' = bindings vm)
       \<and> (\<forall>vm. disposer [] vm = vm)"
    using 1 2 3 5 by (simp add: disposer_nil)
  then show ?thesis by (rule exI)
qed

theorem static_subtree_installs_nothing_witness:
  "compile demo_env (SingleNode demo_nodeH)
     = Inr (SingleNode demo_nodeH,
            \<lparr> c_executor = None, c_childExecutor = Some (NodeListExecutor [(None, None)]) \<rparr>)
   \<and> run \<lparr> c_executor = None, c_childExecutor = Some (NodeListExecutor [(None, None)]) \<rparr>
         (SingleNode demo_nodeH) None None demo_vm
     = Inr (demo_vm, [])
   \<and> disposer [] demo_vm = demo_vm"
proof -
  have s: "static_node demo_env demo_nodeH"
    by (simp add: demo_nodeH_def demo_env_def)
  show ?thesis
    using static_subtree_installs_nothing [OF s]
    by (simp add: model_defs demo_defs demo_nodeH_def)
qed

text \<open>
  Claim C9 as stated fails on a static element with a child: the compile result holds a
  node-list executor, which still performs the length test and raises on a live element
  without that child.
\<close>

theorem static_subtree_compiles_to_a_unit_counterexample:
  "static_node demo_env demo_nodeH
   \<and> compile demo_env (SingleNode demo_nodeH)
     = Inr (SingleNode demo_nodeH,
            \<lparr> c_executor = None, c_childExecutor = Some (NodeListExecutor [(None, None)]) \<rparr>)
   \<and> run \<lparr> c_executor = None, c_childExecutor = Some (NodeListExecutor [(None, None)]) \<rparr>
         (SingleNode (Node 1 ''DIV'' [(''id'', ''a'')] [] [])) None None demo_vm
     = Inl (StructuralMismatch, demo_vm)"
  by (simp add: model_defs demo_defs demo_nodeH_def)

section \<open>Data resolution: proxies first, assignments later\<close>





















































lemma keeps_cong:
  assumes "keeps P s s'" and "nextPromise s'' = nextPromise s'" and "timers s'' = timers s'"
      and "promises s'' P = promises s' P"
  shows "keeps P s s''"
  using assms(1) unfolding keeps_def assms(2) assms(3) assms(4) .




lemma keeps_props: "keeps P s s' \<Longrightarrow> keeps P s (s'\<lparr>props := c\<rparr>)"
  by (erule keeps_cong) simp_all

lemma keeps_proxied: "keeps P s s' \<Longrightarrow> keeps P s (s'\<lparr>proxied := c\<rparr>)"
  by (erule keeps_cong) simp_all















































lemma registered_proxy: "registered P nm (proxy s n) = registered P nm s"
  by (simp add: registered_def queued_def has_listener_def proxy_def)






























end
